theory Spec2Isabelle
  imports Main "HOL-Library.Word"
begin

unbundle bit_operations_syntax

section \<open>Machine types\<close>

type_synonym u8 = "8 word"
type_synonym u16 = "16 word"
type_synonym u32 = "32 word"

text \<open>
  A C pointer to a byte buffer is modelled as \<open>u8 list option\<close>: \<open>None\<close> is the null
  pointer, \<open>Some xs\<close> a buffer holding \<open>xs\<close>.  Where the source passes a pointer and a
  length, the length is the length of the list.  Array indices and lengths that the
  source keeps in \<open>uint16_t\<close> variables are natural numbers here; the bounds the source
  checks (at most 254 input bytes, at most 514 buffered bytes) keep them far below
  \<open>2 ^ 16\<close>.  Bytes, the COBS code counter and the sequence numbers are 8-bit words.
\<close>

section \<open>COBS (src/src/cobs.cpp)\<close>

datatype CobsError =
    COBS_ERROR_INVALID_INPUT
  | COBS_ERROR_OUTPUT_TOO_SMALL
  | COBS_ERROR_INCOMPLETE

text \<open>The values of the enumerators in the header of the COBS class.\<close>

fun CobsError_code :: "CobsError \<Rightarrow> int" where
  "CobsError_code COBS_ERROR_INVALID_INPUT = - 6"
| "CobsError_code COBS_ERROR_OUTPUT_TOO_SMALL = - 7"
| "CobsError_code COBS_ERROR_INCOMPLETE = - 8"

definition COBS_BLOCK_SIZE :: nat where
  "COBS_BLOCK_SIZE = 254"

definition COBS_DELIMITER :: u8 where
  "COBS_DELIMITER = 0x00"

definition COBS_MAX_CODE :: u8 where
  "COBS_MAX_CODE = 0xFF"

subsection \<open>COBS::encode\<close>

text \<open>
  The \<open>while (read_index < input_length)\<close> loop of the encoder, with its four local
  variables and the output array.  The code byte of the block being filled is written
  late, at \<open>code_index\<close>, when the block is closed.
\<close>

function encode_loop ::
  "u8 list \<Rightarrow> nat \<Rightarrow> nat \<Rightarrow> nat \<Rightarrow> u8 \<Rightarrow> u8 list \<Rightarrow> nat \<times> u8 list" where
  "encode_loop input read_index write_index code_index code output =
     (if read_index < length input then
        (if input ! read_index = 0 then
           encode_loop input (read_index + 1) (write_index + 1) write_index 1
             (output[code_index := code])
         else
           (let output1 = output[write_index := input ! read_index];
                code1 = code + 1
            in if code1 = COBS_MAX_CODE then
                 encode_loop input (read_index + 1) (write_index + 2) (write_index + 1) 1
                   (output1[code_index := code1])
               else
                 encode_loop input (read_index + 1) (write_index + 1) code_index code1 output1))
      else (write_index, output[code_index := code]))"
  by pat_completeness auto
termination
  by (relation "measure (\<lambda>(input, read_index, _). length input - read_index)") auto

declare encode_loop.simps [simp del]

text \<open>
  The result is the function's \<open>int\<close> return value (an error, or the number of bytes
  written) and the output buffer after the call.  \<open>output_size\<close> is the size the caller
  announces; the caller must own at least that many bytes.
\<close>

definition COBS_encode ::
  "u8 list option \<Rightarrow> u8 list option \<Rightarrow> nat \<Rightarrow> (CobsError + nat) \<times> u8 list option" where
  "COBS_encode input output output_size =
     (case (input, output) of
        (Some inp, Some out) \<Rightarrow>
          if length inp = 0 then (Inr 0, output)
          else if length inp > COBS_BLOCK_SIZE then (Inl COBS_ERROR_INVALID_INPUT, output)
          else if output_size < length inp + length inp div 254 + 1
            then (Inl COBS_ERROR_OUTPUT_TOO_SMALL, output)
          else (case encode_loop inp 0 1 0 1 out of
                  (write_index, out') \<Rightarrow> (Inr write_index, Some out'))
      | _ \<Rightarrow> (Inl COBS_ERROR_INVALID_INPUT, output))"

subsection \<open>COBS::decode\<close>

text \<open>The \<open>for\<close> loop that looks for the frame delimiter.\<close>

function frame_end_loop :: "u8 list \<Rightarrow> nat \<Rightarrow> nat" where
  "frame_end_loop input frame_end =
     (if frame_end < length input then
        (if input ! frame_end = COBS_DELIMITER then frame_end
         else frame_end_loop input (frame_end + 1))
      else frame_end)"
  by pat_completeness auto
termination
  by (relation "measure (\<lambda>(input, frame_end). length input - frame_end)") auto

declare frame_end_loop.simps [simp del]

text \<open>The inner \<open>for (uint8_t i = 1; i < code; i++)\<close> loop that copies the literal bytes.\<close>

function copy_loop ::
  "u8 list \<Rightarrow> u8 \<Rightarrow> u8 \<Rightarrow> nat \<Rightarrow> nat \<Rightarrow> u8 list \<Rightarrow> nat \<times> nat \<times> u8 list" where
  "copy_loop input code i read_index write_index output =
     (if i < code then
        copy_loop input code (i + 1) (read_index + 1) (write_index + 1)
          (output[write_index := input ! read_index])
      else (read_index, write_index, output))"
  by pat_completeness auto
termination
proof (relation "measure (\<lambda>(input, code, i, _). unat code - unat i)", goal_cases)
  case 1
  show ?case by simp
next
  case (2 inp code i read_index write_index out)
  then have lt: "unat i < unat code"
    by (simp add: word_less_nat_alt)
  have "unat code < 2 ^ LENGTH(8)"
    by (rule unsigned_less)
  with lt have "unat (i + 1) = unat i + 1"
    by (simp add: unat_word_ariths)
  with lt show ?case by simp
qed

declare copy_loop.simps [simp del]

lemma copy_loop_read_index:
  "read_index \<le> fst (copy_loop inp code i read_index write_index out)"
  by (induction inp code i read_index write_index out rule: copy_loop.induct)
     (subst copy_loop.simps, auto)

text \<open>
  The \<open>while (read_index < frame_end)\<close> loop of the decoder.  An error return leaves
  the bytes written so far in the output buffer.
\<close>

function decode_loop ::
  "u8 list \<Rightarrow> nat \<Rightarrow> nat \<Rightarrow> nat \<Rightarrow> u8 list \<Rightarrow> (CobsError + nat) \<times> u8 list" where
  "decode_loop input frame_end read_index write_index output =
     (if read_index < frame_end then
        (let code = input ! read_index in
         if code = 0 then (Inl COBS_ERROR_INVALID_INPUT, output)
         else if read_index + 1 + unat code - 1 > frame_end
           then (Inl COBS_ERROR_INVALID_INPUT, output)
         else
           (case copy_loop input code 1 (read_index + 1) write_index output of
              (read_index2, write_index2, output2) \<Rightarrow>
                if code < COBS_MAX_CODE \<and> read_index2 < frame_end then
                  decode_loop input frame_end read_index2 (write_index2 + 1)
                    (output2[write_index2 := 0])
                else decode_loop input frame_end read_index2 write_index2 output2))
      else (Inr write_index, output))"
  by pat_completeness auto
termination
proof (relation "measure (\<lambda>(input, frame_end, read_index, _). frame_end - read_index)",
    goal_cases)
  case 1
  show ?case by simp
next
  case (2 inp frame_end read_index write_index out code read_index2 rest write_index2 out2)
  have "read_index + 1 \<le> fst (copy_loop inp code 1 (read_index + 1) write_index out)"
    by (rule copy_loop_read_index)
  with 2 have "read_index < read_index2" "read_index < frame_end"
    by (auto simp: Suc_le_eq dest: sym)
  then show ?case
    by simp
next
  case (3 inp frame_end read_index write_index out code read_index2 rest write_index2 out2)
  have "read_index + 1 \<le> fst (copy_loop inp code 1 (read_index + 1) write_index out)"
    by (rule copy_loop_read_index)
  with 3 have "read_index < read_index2" "read_index < frame_end"
    by (auto simp: Suc_le_eq dest: sym)
  then show ?case
    by simp
qed

declare decode_loop.simps [simp del]

text \<open>
  The result is the \<open>int\<close> return value, the output buffer after the call and the value
  of the reference parameter \<open>consumed_length\<close> after the call (it keeps the caller's
  value on the paths that do not assign it).
\<close>

definition COBS_decode ::
  "u8 list option \<Rightarrow> u8 list option \<Rightarrow> nat \<Rightarrow> nat \<Rightarrow>
     (CobsError + nat) \<times> u8 list option \<times> nat" where
  "COBS_decode input output output_size consumed_length =
     (case (input, output) of
        (Some inp, Some out) \<Rightarrow>
          if length inp = 0 then (Inr 0, output, 0)
          else
            (let frame_end = frame_end_loop inp 0 in
             if frame_end = length inp then (Inl COBS_ERROR_INCOMPLETE, output, consumed_length)
             else if frame_end = 0 then (Inr 0, output, 1)
             else if output_size < frame_end
               then (Inl COBS_ERROR_OUTPUT_TOO_SMALL, output, consumed_length)
             else
               (case decode_loop inp frame_end 0 0 out of
                  (Inl e, out') \<Rightarrow> (Inl e, Some out', consumed_length)
                | (Inr write_index, out') \<Rightarrow> (Inr write_index, Some out', frame_end + 1)))
      | _ \<Rightarrow> (Inl COBS_ERROR_INVALID_INPUT, output, consumed_length))"

section \<open>CRC-16\<close>

text \<open>
  Modelled from the spec: \<open>CRC16::calculate\<close> is declared in include/crc16.hpp, but its
  body and its lookup table are not among the source files.  The spec describes it as
  CRC-16-CCITT: polynomial \<open>0x1021\<close>, initial value \<open>0xFFFF\<close>, no reflection, no final
  XOR.  The link layer below takes the CRC function as a parameter \<open>crc16\<close>, so what is
  proved about the link layer holds for every CRC function; this definition is the
  instance used in the concrete examples.
\<close>

fun crc16_shift :: "nat \<Rightarrow> u16 \<Rightarrow> u16" where
  "crc16_shift 0 crc = crc"
| "crc16_shift (Suc n) crc =
     crc16_shift n (if crc AND 0x8000 \<noteq> 0 then push_bit 1 crc XOR 0x1021 else push_bit 1 crc)"

definition crc16_byte :: "u16 \<Rightarrow> u8 \<Rightarrow> u16" where
  "crc16_byte crc b = crc16_shift 8 (crc XOR push_bit 8 (ucast b))"

definition CRC16_calculate :: "u8 list \<Rightarrow> u16" where
  "CRC16_calculate data = foldl crc16_byte 0xFFFF data"

section \<open>Link layer (src/src/link_layer.cpp, link_layer.hpp, config.hpp)\<close>

definition COBS_MAX_BLOCK_SIZE :: nat where
  "COBS_MAX_BLOCK_SIZE = 254"

definition COBS_MAX_ENCODED_SIZE :: nat where
  "COBS_MAX_ENCODED_SIZE = 257"

definition LINK_HEADER_SIZE :: nat where
  "LINK_HEADER_SIZE = 2"

definition LINK_CRC_SIZE :: nat where
  "LINK_CRC_SIZE = 2"

definition LINK_MIN_FRAME_SIZE :: nat where
  "LINK_MIN_FRAME_SIZE = LINK_HEADER_SIZE + LINK_CRC_SIZE"

definition LINK_MAX_FRAME_SIZE :: nat where
  "LINK_MAX_FRAME_SIZE = COBS_MAX_BLOCK_SIZE"

definition LINK_MAX_PAYLOAD_SIZE :: nat where
  "LINK_MAX_PAYLOAD_SIZE = COBS_MAX_BLOCK_SIZE - LINK_HEADER_SIZE - LINK_CRC_SIZE"

definition LINK_OUTGOING_BUFFER_SIZE :: nat where
  "LINK_OUTGOING_BUFFER_SIZE = COBS_MAX_ENCODED_SIZE * 2"

definition LINK_INCOMING_BUFFER_SIZE :: nat where
  "LINK_INCOMING_BUFFER_SIZE = COBS_MAX_ENCODED_SIZE * 2"

definition LINK_FRAME_TYPE_DATA :: u8 where
  "LINK_FRAME_TYPE_DATA = 0x01"

datatype LinkState = LINK_STATE_READY | LINK_STATE_SENDING | LINK_STATE_ERROR

text \<open>The functions of the layers return an \<open>int\<close>: zero or a byte count, or an error code.\<close>

definition LAYER_SUCCESS :: int where
  "LAYER_SUCCESS = 0"

definition ERROR_RANGE_LINK :: int where
  "ERROR_RANGE_LINK = - 64"

definition LINK_SUCCESS :: int where
  "LINK_SUCCESS = LAYER_SUCCESS"

definition LINK_ERROR_GENERAL :: int where
  "LINK_ERROR_GENERAL = ERROR_RANGE_LINK"

definition LINK_ERROR_BUFFER_FULL :: int where
  "LINK_ERROR_BUFFER_FULL = ERROR_RANGE_LINK - 3"

definition LINK_ERROR_INVALID_PARAM :: int where
  "LINK_ERROR_INVALID_PARAM = ERROR_RANGE_LINK - 5"

datatype LinkLayerEvent =
    LINK_LAYER_EVENT_READY
  | LINK_LAYER_EVENT_FRAME_SENT
  | LINK_LAYER_EVENT_FRAME_RECEIVED
  | LINK_LAYER_EVENT_CRC_ERROR
  | LINK_LAYER_EVENT_ERROR
  | LINK_LAYER_EVENT_OUTGOING_DATA_AVAILABLE
  | LINK_LAYER_EVENT_INCOMING_DATA_AVAILABLE

text \<open>
  The members of \<open>LinkLayer\<close>, those inherited from \<open>Layer\<close> first.  A member \<open>name_\<close> of
  the source is the field \<open>name_'\<close> (an Isabelle name cannot end with an underscore); the
  members that \<open>TransportLayer\<close> has under the same name carry the prefix \<open>link_\<close>.

  \<^item> \<open>link_up_layer\<close>, \<open>link_down_layer\<close>: whether the pointer is non-null.
  \<^item> \<open>link_manager_'\<close>: \<open>None\<close> is a null \<open>manager_\<close>; otherwise the events reported to the
    manager so far, oldest first (\<open>report_event\<close> only calls
    \<open>manager_->on_layer_event\<close>).
  \<^item> \<open>frame_buffer_'\<close>, \<open>encoded_buffer_'\<close>, \<open>decode_buffer_'\<close>: the scratch arrays.
  \<^item> \<open>outgoing_buffer_'\<close>, \<open>incoming_buffer_'\<close>: the bytes queued in the array, that is its
    first \<open>outgoing_buffer_length_\<close> (\<open>incoming_buffer_length_\<close>) bytes; the length member
    is the length of the list.
\<close>

record LinkLayer =
  link_up_layer :: bool
  link_down_layer :: bool
  link_manager_' :: "LinkLayerEvent list option"
  link_state_' :: LinkState
  frame_buffer_' :: "u8 list"
  encoded_buffer_' :: "u8 list"
  encoded_length_' :: u16
  decode_buffer_' :: "u8 list"
  outgoing_buffer_' :: "u8 list"
  incoming_buffer_' :: "u8 list"

text \<open>\<open>Layer::report_event\<close> (src/unnamed/part_001), for the link layer.\<close>

definition link_report_event :: "LinkLayerEvent \<Rightarrow> LinkLayer \<Rightarrow> LinkLayer" where
  "link_report_event event_code l =
     (case link_manager_' l of
        None \<Rightarrow> l
      | Some events \<Rightarrow> l\<lparr>link_manager_' := Some (events @ [event_code])\<rparr>)"

definition LinkLayer_reset :: "LinkLayer \<Rightarrow> LinkLayer" where
  "LinkLayer_reset l =
     link_report_event LINK_LAYER_EVENT_READY
       (l\<lparr>link_state_' := LINK_STATE_READY, encoded_length_' := 0\<rparr>)"

text \<open>The contents of an array after a call that was handed a pointer to it.\<close>

definition buffer_after :: "u8 list \<Rightarrow> u8 list option \<Rightarrow> u8 list" where
  "buffer_after old p = (case p of None \<Rightarrow> old | Some new \<Rightarrow> new)"

text \<open>
  \<open>LinkLayer::send\<close>.  The member \<open>encoded_length_\<close> is a \<open>uint16_t\<close>: the \<open>int\<close> that
  \<open>COBS::encode\<close> returns is converted to it, so a negative error code becomes a large
  positive number and the test \<open>encoded_length_ < 0\<close> compares a non-negative value.
  Writing the delimiter at an index outside \<open>encoded_buffer_\<close> is undefined behaviour;
  the model returns \<open>None\<close> there.
\<close>

definition LinkLayer_send ::
  "(u8 list \<Rightarrow> u16) \<Rightarrow> LinkLayer \<Rightarrow> u8 list option \<Rightarrow> (int \<times> LinkLayer) option" where
  "LinkLayer_send crc16 l data =
     (case data of
        None \<Rightarrow> Some (LINK_ERROR_INVALID_PARAM, link_report_event LINK_LAYER_EVENT_ERROR l)
      | Some bytes \<Rightarrow>
          if \<not> link_down_layer l then
            Some (LINK_ERROR_INVALID_PARAM, link_report_event LINK_LAYER_EVENT_ERROR l)
          else if length bytes > LINK_MAX_PAYLOAD_SIZE then
            Some (LINK_ERROR_INVALID_PARAM, link_report_event LINK_LAYER_EVENT_ERROR l)
          else
            (let l1 = (if link_state_' l = LINK_STATE_ERROR then LinkLayer_reset l else l);
                 header = [LINK_FRAME_TYPE_DATA, of_nat (length bytes)] @ bytes;
                 crc = crc16 header;
                 frame = header @ [ucast (crc AND 0xFF), ucast (drop_bit 8 crc AND 0xFF)];
                 frame_length = length bytes + LINK_MIN_FRAME_SIZE;
                 l2 = l1\<lparr>frame_buffer_' := frame @ drop frame_length (frame_buffer_' l1)\<rparr>;
                 (result, encoded) =
                   COBS_encode (Some frame) (Some (encoded_buffer_' l2)) LINK_MAX_FRAME_SIZE;
                 l3 = l2\<lparr>encoded_buffer_' := buffer_after (encoded_buffer_' l2) encoded,
                         encoded_length_' :=
                           (case result of
                              Inl e \<Rightarrow> word_of_int (CobsError_code e)
                            | Inr n \<Rightarrow> of_nat n)\<rparr>
             in
               if uint (encoded_length_' l3) < 0 then
                 Some (LINK_ERROR_GENERAL,
                   link_report_event LINK_LAYER_EVENT_ERROR
                     (l3\<lparr>link_state_' := LINK_STATE_ERROR\<rparr>))
               else if COBS_MAX_ENCODED_SIZE \<le> unat (encoded_length_' l3) then None
               else
                 (let l4 = l3\<lparr>encoded_buffer_' :=
                               (encoded_buffer_' l3)[unat (encoded_length_' l3) := COBS_DELIMITER],
                             encoded_length_' := encoded_length_' l3 + 1\<rparr>
                  in
                    if length (outgoing_buffer_' l4) + unat (encoded_length_' l4)
                         > LINK_OUTGOING_BUFFER_SIZE then
                      Some (LINK_ERROR_BUFFER_FULL, link_report_event LINK_LAYER_EVENT_ERROR l4)
                    else
                      Some (LINK_SUCCESS,
                        link_report_event LINK_LAYER_EVENT_OUTGOING_DATA_AVAILABLE
                          (l4\<lparr>outgoing_buffer_' := outgoing_buffer_' l4 @
                                  take (unat (encoded_length_' l4)) (encoded_buffer_' l4)\<rparr>)))))"

text \<open>
  \<open>LinkLayer::process_incoming_data\<close>.  The layer above is reached through the virtual
  call \<open>up_layer->on_receive\<close>; it is the parameter \<open>up_on_receive\<close>, a function of the
  payload on the state \<open>'u\<close> of the layer above paired with the link layer (the layer
  above holds a pointer to the link layer and may call its \<open>send\<close>), with \<open>None\<close> when
  that call does not return.  The loop is the \<open>while (incoming_buffer_length_ > 0)\<close> of
  the source; its result is \<open>None\<close> when the source does not return normally.
  Removing more bytes than the buffer holds would make the unsigned length wrap
  around and is undefined behaviour in \<open>memmove\<close>; the model returns \<open>None\<close> there.
\<close>

partial_function (option) process_incoming_loop ::
  "(u8 list \<Rightarrow> u16) \<Rightarrow> (u8 list \<Rightarrow> 'u \<times> LinkLayer \<Rightarrow> ('u \<times> LinkLayer) option) \<Rightarrow>
     'u \<times> LinkLayer \<Rightarrow> ('u \<times> LinkLayer) option" where
  "process_incoming_loop crc16 up_on_receive ul =
     (case ul of (u, l) \<Rightarrow>
        if length (incoming_buffer_' l) > 0 then
          (case COBS_decode (Some (incoming_buffer_' l)) (Some (decode_buffer_' l))
                  LINK_MAX_FRAME_SIZE 0 of
             (decoded_length, decoded, consumed_length) \<Rightarrow>
               (let l1 = l\<lparr>decode_buffer_' := buffer_after (decode_buffer_' l) decoded\<rparr> in
                case decoded_length of
                  Inl e \<Rightarrow>
                    if e = COBS_ERROR_INCOMPLETE then Some (u, l1)
                    else process_incoming_loop crc16 up_on_receive
                           (u, l1\<lparr>incoming_buffer_' := drop 1 (incoming_buffer_' l1)\<rparr>)
                | Inr n \<Rightarrow>
                    if n < LINK_MIN_FRAME_SIZE then
                      process_incoming_loop crc16 up_on_receive
                        (u, l1\<lparr>incoming_buffer_' := drop 1 (incoming_buffer_' l1)\<rparr>)
                    else
                      (let payload_length = decode_buffer_' l1 ! 1 in
                       if unat payload_length > LINK_MAX_PAYLOAD_SIZE \<or>
                          n \<noteq> unat payload_length + LINK_MIN_FRAME_SIZE then
                         process_incoming_loop crc16 up_on_receive
                           (u, l1\<lparr>incoming_buffer_' :=
                                   drop consumed_length (incoming_buffer_' l1)\<rparr>)
                       else
                         (let received_crc =
                                (ucast (decode_buffer_' l1 ! (n - 2)) AND 0xFF) OR
                                push_bit 8 (ucast (decode_buffer_' l1 ! (n - 1)));
                              computed_crc = crc16 (take (n - LINK_CRC_SIZE) (decode_buffer_' l1))
                          in
                            (case
                               (if computed_crc = received_crc then
                                  (if decode_buffer_' l1 ! 0 = LINK_FRAME_TYPE_DATA then
                                     (case
                                        (if link_up_layer l1 then
                                           up_on_receive
                                             (take (unat payload_length)
                                                (drop LINK_HEADER_SIZE (decode_buffer_' l1)))
                                             (u, l1)
                                         else Some (u, l1)) of
                                        None \<Rightarrow> None
                                      | Some (u', l2) \<Rightarrow>
                                          Some (u', link_report_event LINK_LAYER_EVENT_FRAME_RECEIVED
                                                   (l2\<lparr>link_state_' := LINK_STATE_READY\<rparr>)))
                                   else Some (u, l1\<lparr>link_state_' := LINK_STATE_ERROR\<rparr>))
                                else
                                  Some (u, link_report_event LINK_LAYER_EVENT_CRC_ERROR
                                             (l1\<lparr>link_state_' := LINK_STATE_ERROR\<rparr>))) of
                               None \<Rightarrow> None
                             | Some (u3, l3) \<Rightarrow>
                                 if consumed_length > length (incoming_buffer_' l3) then None
                                 else process_incoming_loop crc16 up_on_receive
                                        (u3, l3\<lparr>incoming_buffer_' :=
                                                drop consumed_length (incoming_buffer_' l3)\<rparr>))))))
        else Some ul)"

text \<open>
  The function itself: the early return on an empty buffer, then the loop; the value
  returned is always \<open>LINK_SUCCESS\<close>.
\<close>

definition LinkLayer_process_incoming_data ::
  "(u8 list \<Rightarrow> u16) \<Rightarrow> (u8 list \<Rightarrow> 'u \<times> LinkLayer \<Rightarrow> ('u \<times> LinkLayer) option) \<Rightarrow>
     'u \<times> LinkLayer \<Rightarrow> (int \<times> 'u \<times> LinkLayer) option" where
  "LinkLayer_process_incoming_data crc16 up_on_receive ul =
     (if length (incoming_buffer_' (snd ul)) = 0 then Some (LINK_SUCCESS, ul)
      else map_option (Pair LINK_SUCCESS) (process_incoming_loop crc16 up_on_receive ul))"

section \<open>Transport layer (src/unnamed/part_002, part_005)\<close>

text \<open>
  The two unnamed files are the implementation and the header of \<open>TransportLayer\<close>.
\<close>

definition TRANSPORT_PACKET_TYPE_SYN :: u8 where
  "TRANSPORT_PACKET_TYPE_SYN = 0x01"

definition TRANSPORT_PACKET_TYPE_SYN_ACK :: u8 where
  "TRANSPORT_PACKET_TYPE_SYN_ACK = 0x02"

definition TRANSPORT_PACKET_TYPE_ACK :: u8 where
  "TRANSPORT_PACKET_TYPE_ACK = 0x03"

definition TRANSPORT_PACKET_TYPE_FIN :: u8 where
  "TRANSPORT_PACKET_TYPE_FIN = 0x04"

definition TRANSPORT_PACKET_TYPE_FIN_ACK :: u8 where
  "TRANSPORT_PACKET_TYPE_FIN_ACK = 0x05"

definition TRANSPORT_PACKET_TYPE_DATA :: u8 where
  "TRANSPORT_PACKET_TYPE_DATA = 0x06"

definition TRANSPORT_PACKET_TYPE_DATA_ACK :: u8 where
  "TRANSPORT_PACKET_TYPE_DATA_ACK = 0x07"

definition TRANSPORT_PACKET_TYPE_DATA_NACK :: u8 where
  "TRANSPORT_PACKET_TYPE_DATA_NACK = 0x08"

definition TRANSPORT_PACKET_TYPE_KEEPALIVE :: u8 where
  "TRANSPORT_PACKET_TYPE_KEEPALIVE = 0x09"

definition TRANSPORT_PACKET_TYPE_KEEPALIVE_ACK :: u8 where
  "TRANSPORT_PACKET_TYPE_KEEPALIVE_ACK = 0x0A"

definition TRANSPORT_PACKET_TYPE_DATAGRAM :: u8 where
  "TRANSPORT_PACKET_TYPE_DATAGRAM = 0x0B"

definition TRANSPORT_PACKET_TYPE_MAX :: u8 where
  "TRANSPORT_PACKET_TYPE_MAX = 0x0C"

definition TRANSPORT_CONNECTION_ID_INVALID :: u8 where
  "TRANSPORT_CONNECTION_ID_INVALID = 0x00"

definition TRANSPORT_CONNECTION_ID_START :: u8 where
  "TRANSPORT_CONNECTION_ID_START = 0x01"

definition TRANSPORT_MAX_PACKET_SIZE :: nat where
  "TRANSPORT_MAX_PACKET_SIZE = LINK_MAX_PAYLOAD_SIZE"

definition TRANSPORT_HEADER_SIZE :: nat where
  "TRANSPORT_HEADER_SIZE = 4"

definition TRANSPORT_MAX_PAYLOAD_SIZE :: nat where
  "TRANSPORT_MAX_PAYLOAD_SIZE = TRANSPORT_MAX_PACKET_SIZE - TRANSPORT_HEADER_SIZE"

definition TRANSPORT_LAYER_DEFAULT_KEEPALIVE_MS :: u32 where
  "TRANSPORT_LAYER_DEFAULT_KEEPALIVE_MS = 1000"

definition TRANSPORT_LAYER_DEFAULT_TIMEOUT_MS :: u32 where
  "TRANSPORT_LAYER_DEFAULT_TIMEOUT_MS = 3000"

definition TRANSPORT_MAX_RETRIES :: u8 where
  "TRANSPORT_MAX_RETRIES = 3"

definition ERROR_RANGE_TRANSPORT :: int where
  "ERROR_RANGE_TRANSPORT = - 96"

definition TRANSPORT_SUCCESS :: int where
  "TRANSPORT_SUCCESS = 0"

definition TRANSPORT_ERROR_INVALID_PARAMS :: int where
  "TRANSPORT_ERROR_INVALID_PARAMS = ERROR_RANGE_TRANSPORT"

definition TRANSPORT_ERROR_NOT_CONNECTED :: int where
  "TRANSPORT_ERROR_NOT_CONNECTED = ERROR_RANGE_TRANSPORT - 1"

definition TRANSPORT_ERROR_SEND_FAILED :: int where
  "TRANSPORT_ERROR_SEND_FAILED = ERROR_RANGE_TRANSPORT - 7"

definition TRANSPORT_ERROR_INVALID_STATE :: int where
  "TRANSPORT_ERROR_INVALID_STATE = ERROR_RANGE_TRANSPORT - 8"

datatype TransportState =
    TRANSPORT_STATE_DISCONNECTED
  | TRANSPORT_STATE_LISTENING
  | TRANSPORT_STATE_CONNECTING
  | TRANSPORT_STATE_CONNECTED
  | TRANSPORT_STATE_DISCONNECTING
  | TRANSPORT_STATE_ERROR

datatype TransportLayerEvent =
    TRANSPORT_LAYER_EVENT_MESSAGE_RECEIVED
  | TRANSPORT_LAYER_EVENT_DISCONNECTED
  | TRANSPORT_LAYER_EVENT_CONNECTED
  | TRANSPORT_LAYER_EVENT_INIT
  | TRANSPORT_LAYER_EVENT_ERROR
  | TRANSPORT_LAYER_EVENT_TIMEOUT
  | TRANSPORT_LAYER_EVENT_READY_FOR_DATA
  | TRANSPORT_LAYER_EVENT_READY_FOR_CONNECTION

text \<open>
  What the transport layer calls on its manager (the \<open>RobustStack\<close>): \<open>on_receive\<close>
  with a stream payload, \<open>on_datagram\<close> with a datagram payload, and \<open>on_layer_event\<close>
  (through \<open>report_event\<close>).  The transport layer uses no result of these calls.
\<close>

datatype manager_call =
    manager_on_receive "u8 list"
  | manager_on_datagram "u8 list"
  | manager_on_layer_event TransportLayerEvent

text \<open>
  The members of \<open>TransportLayer\<close>; a member \<open>name_\<close> of the source is the field \<open>name_'\<close>.

  \<^item> \<open>down_layer\<close>: \<open>None\<close> is a null pointer, \<open>Some d\<close> a layer below in state \<open>d\<close>.  The
    layer below is reached through the virtual call \<open>down_layer->send\<close>, which is the
    parameter \<open>down_send\<close> of the functions below: from the bytes handed down and the
    state of the layer below to the returned \<open>int\<close> and the new state, or \<open>None\<close> when
    the call does not return normally.  \<open>LinkLayer_send\<close> is such a function.
  \<^item> \<open>manager_'\<close>: \<open>None\<close> is a null \<open>manager_\<close>; otherwise the calls made on the manager so
    far, oldest first.
  \<^item> \<open>state_'\<close> is the member \<open>TransportState state_\<close> that the class declares itself.
  \<^item> \<open>tx_buffer_'\<close> and \<open>last_tx_buffer_'\<close> are the two arrays of
    \<open>TRANSPORT_MAX_PACKET_SIZE\<close> bytes.

  The value of \<open>get_current_time_ms()\<close> is the parameter \<open>now\<close> of the functions that
  read the clock; each of them reads it at most once in a call.  Dereferencing a null
  \<open>down_layer\<close> is undefined behaviour; the functions return \<open>None\<close> there.
\<close>

record 'd TransportLayer =
  down_layer :: "'d option"
  manager_' :: "manager_call list option"
  state_' :: TransportState
  connect_retries_' :: u8
  last_keepalive_ack_time_' :: u32
  sequence_number_' :: u8
  peer_sequence_number_' :: u8
  awaiting_ack_' :: bool
  last_tx_time_' :: u32
  retry_count_' :: u8
  waiting_response_' :: bool
  last_tick_time_' :: u32
  connection_id_' :: u8
  tx_buffer_' :: "u8 list"
  last_tx_buffer_' :: "u8 list"
  last_tx_length_' :: u16
  keepalive_interval_' :: u32
  connection_timeout_' :: u32

type_synonym 'd down_send = "u8 list \<Rightarrow> 'd \<Rightarrow> (int \<times> 'd) option"

text \<open>\<open>Layer::report_event\<close> (src/unnamed/part_001), for the transport layer.\<close>

definition report_event :: "TransportLayerEvent \<Rightarrow> 'd TransportLayer \<Rightarrow> 'd TransportLayer" where
  "report_event event_code t =
     (case manager_' t of
        None \<Rightarrow> t
      | Some calls \<Rightarrow> t\<lparr>manager_' := Some (calls @ [manager_on_layer_event event_code])\<rparr>)"

text \<open>An unguarded \<open>down_layer->send(buffer, length)\<close>, \<open>bytes\<close> being the bytes handed down.\<close>

definition down_layer_send ::
  "'d down_send \<Rightarrow> u8 list \<Rightarrow> 'd TransportLayer \<Rightarrow> (int \<times> 'd TransportLayer) option" where
  "down_layer_send down_send bytes t =
     (case down_layer t of
        None \<Rightarrow> None
      | Some d \<Rightarrow>
          (case down_send bytes d of
             None \<Rightarrow> None
           | Some (result, d') \<Rightarrow> Some (result, t\<lparr>down_layer := Some d'\<rparr>)))"

text \<open>
  The body shared by the \<open>send_...\<close> functions of the control packets: four bytes are
  written at the start of \<open>tx_buffer_\<close> and handed down; the result of the layer below
  is dropped.
\<close>

definition send_control ::
  "'d down_send \<Rightarrow> u8 \<Rightarrow> u8 \<Rightarrow> u8 \<Rightarrow> 'd TransportLayer \<Rightarrow> 'd TransportLayer option" where
  "send_control down_send packet_type connection_id sequence_number t =
     (let packet = [packet_type, connection_id, sequence_number, 0] in
      map_option snd
        (down_layer_send down_send packet
           (t\<lparr>tx_buffer_' := packet @ drop TRANSPORT_HEADER_SIZE (tx_buffer_' t)\<rparr>)))"

definition send_keepalive :: "'d down_send \<Rightarrow> 'd TransportLayer \<Rightarrow> 'd TransportLayer option" where
  "send_keepalive down_send t =
     send_control down_send TRANSPORT_PACKET_TYPE_KEEPALIVE (connection_id_' t) 0 t"

definition send_syn :: "'d down_send \<Rightarrow> 'd TransportLayer \<Rightarrow> 'd TransportLayer option" where
  "send_syn down_send t =
     send_control down_send TRANSPORT_PACKET_TYPE_SYN TRANSPORT_CONNECTION_ID_INVALID
       (sequence_number_' t) t"

definition send_syn_ack :: "'d down_send \<Rightarrow> 'd TransportLayer \<Rightarrow> 'd TransportLayer option" where
  "send_syn_ack down_send t =
     (let incremented = word_of_int ((uint (connection_id_' t) + 1) mod 256) :: u8;
          t1 = t\<lparr>connection_id_' :=
                 (if incremented = TRANSPORT_CONNECTION_ID_INVALID
                  then TRANSPORT_CONNECTION_ID_START else incremented)\<rparr>
      in send_control down_send TRANSPORT_PACKET_TYPE_SYN_ACK (connection_id_' t1)
           (sequence_number_' t1) t1)"

definition send_ack ::
  "'d down_send \<Rightarrow> u8 \<Rightarrow> u8 \<Rightarrow> 'd TransportLayer \<Rightarrow> 'd TransportLayer option" where
  "send_ack down_send connection_id sequence_number t =
     send_control down_send TRANSPORT_PACKET_TYPE_ACK connection_id sequence_number t"

definition send_fin :: "'d down_send \<Rightarrow> 'd TransportLayer \<Rightarrow> 'd TransportLayer option" where
  "send_fin down_send t =
     send_control down_send TRANSPORT_PACKET_TYPE_FIN (connection_id_' t) (sequence_number_' t) t"

definition send_fin_ack :: "'d down_send \<Rightarrow> 'd TransportLayer \<Rightarrow> 'd TransportLayer option" where
  "send_fin_ack down_send t =
     send_control down_send TRANSPORT_PACKET_TYPE_FIN_ACK (connection_id_' t)
       (sequence_number_' t) t"

definition send_data_ack ::
  "'d down_send \<Rightarrow> u8 \<Rightarrow> u8 \<Rightarrow> 'd TransportLayer \<Rightarrow> 'd TransportLayer option" where
  "send_data_ack down_send connection_id sequence_number t =
     send_control down_send TRANSPORT_PACKET_TYPE_DATA_ACK connection_id sequence_number t"

definition send_data_nack ::
  "'d down_send \<Rightarrow> u8 \<Rightarrow> u8 \<Rightarrow> 'd TransportLayer \<Rightarrow> 'd TransportLayer option" where
  "send_data_nack down_send connection_id sequence_number t =
     send_control down_send TRANSPORT_PACKET_TYPE_DATA_NACK connection_id sequence_number t"

subsection \<open>Construction, reset and configuration\<close>

text \<open>
  The constructor initialises the members of its initialiser list and leaves the others
  (\<open>state_\<close>, \<open>last_tick_time_\<close>, the buffers, \<open>last_tx_length_\<close>) as they are in the
  memory \<open>t\<close> it is given; the constructor of \<open>Layer\<close> clears the pointers.
\<close>

definition TransportLayer_constructor :: "'d TransportLayer \<Rightarrow> 'd TransportLayer" where
  "TransportLayer_constructor t =
     t\<lparr>down_layer := None, manager_' := None,
       connect_retries_' := 0, last_keepalive_ack_time_' := 0, sequence_number_' := 0,
       peer_sequence_number_' := 0, awaiting_ack_' := False, last_tx_time_' := 0,
       retry_count_' := 0, waiting_response_' := False,
       keepalive_interval_' := TRANSPORT_LAYER_DEFAULT_KEEPALIVE_MS,
       connection_timeout_' := TRANSPORT_LAYER_DEFAULT_TIMEOUT_MS,
       connection_id_' := TRANSPORT_CONNECTION_ID_INVALID\<rparr>"

definition TransportLayer_reset :: "u32 \<Rightarrow> 'd TransportLayer \<Rightarrow> 'd TransportLayer" where
  "TransportLayer_reset now t =
     t\<lparr>state_' := TRANSPORT_STATE_DISCONNECTED, connect_retries_' := 0,
       last_keepalive_ack_time_' := 0, sequence_number_' := 0, peer_sequence_number_' := 0,
       awaiting_ack_' := False, last_tx_time_' := 0, retry_count_' := 0,
       waiting_response_' := False, last_tick_time_' := now\<rparr>"

definition TransportLayer_initialize :: "u32 \<Rightarrow> 'd TransportLayer \<Rightarrow> 'd TransportLayer" where
  "TransportLayer_initialize now t =
     (TransportLayer_reset now t)
       \<lparr>keepalive_interval_' := TRANSPORT_LAYER_DEFAULT_KEEPALIVE_MS,
        connection_timeout_' := TRANSPORT_LAYER_DEFAULT_TIMEOUT_MS\<rparr>"

definition TransportLayer_deinitialize :: "u32 \<Rightarrow> 'd TransportLayer \<Rightarrow> 'd TransportLayer" where
  "TransportLayer_deinitialize now t = TransportLayer_reset now t"

definition TransportLayer_set_timeout ::
  "u32 \<Rightarrow> u32 \<Rightarrow> 'd TransportLayer \<Rightarrow> 'd TransportLayer" where
  "TransportLayer_set_timeout keepalive_ms timeout_ms t =
     t\<lparr>keepalive_interval_' := keepalive_ms, connection_timeout_' := timeout_ms\<rparr>"

text \<open>\<open>Layer::set_down_layer\<close> and \<open>Layer::set_stack_manager\<close>, as \<open>RobustStack\<close> calls them.\<close>

definition set_down_layer :: "'d \<Rightarrow> 'd TransportLayer \<Rightarrow> 'd TransportLayer" where
  "set_down_layer d t = t\<lparr>down_layer := Some d\<rparr>"

definition set_stack_manager :: "manager_call list \<Rightarrow> 'd TransportLayer \<Rightarrow> 'd TransportLayer" where
  "set_stack_manager calls t = t\<lparr>manager_' := Some calls\<rparr>"

subsection \<open>Connection management\<close>

definition TransportLayer_connect ::
  "'d down_send \<Rightarrow> u32 \<Rightarrow> 'd TransportLayer \<Rightarrow> (int \<times> 'd TransportLayer) option" where
  "TransportLayer_connect down_send now t =
     (if state_' t = TRANSPORT_STATE_CONNECTED then Some (TRANSPORT_SUCCESS, t)
      else if state_' t \<noteq> TRANSPORT_STATE_DISCONNECTED
        then Some (TRANSPORT_ERROR_INVALID_STATE, t)
      else
        map_option (Pair TRANSPORT_SUCCESS)
          (send_syn down_send
             (t\<lparr>state_' := TRANSPORT_STATE_CONNECTING, connect_retries_' := 0,
                waiting_response_' := True, sequence_number_' := ucast (now AND 0xFF),
                peer_sequence_number_' := 0\<rparr>)))"

definition TransportLayer_listen :: "'d TransportLayer \<Rightarrow> int \<times> 'd TransportLayer" where
  "TransportLayer_listen t =
     (if state_' t = TRANSPORT_STATE_LISTENING \<or> state_' t = TRANSPORT_STATE_CONNECTED
        then (TRANSPORT_SUCCESS, t)
      else if state_' t \<noteq> TRANSPORT_STATE_DISCONNECTED
        then (TRANSPORT_ERROR_INVALID_STATE, t)
      else (TRANSPORT_SUCCESS,
            t\<lparr>state_' := TRANSPORT_STATE_LISTENING, sequence_number_' := 0,
              peer_sequence_number_' := 0\<rparr>))"

definition TransportLayer_disconnect ::
  "'d down_send \<Rightarrow> 'd TransportLayer \<Rightarrow> (int \<times> 'd TransportLayer) option" where
  "TransportLayer_disconnect down_send t =
     (if state_' t \<noteq> TRANSPORT_STATE_CONNECTED then Some (TRANSPORT_ERROR_NOT_CONNECTED, t)
      else
        map_option (Pair TRANSPORT_SUCCESS)
          (send_fin down_send
             (t\<lparr>state_' := TRANSPORT_STATE_DISCONNECTING, waiting_response_' := True\<rparr>)))"

subsection \<open>Sending\<close>

definition TransportLayer_send ::
  "'d down_send \<Rightarrow> u32 \<Rightarrow> 'd TransportLayer \<Rightarrow> u8 list option \<Rightarrow>
     (int \<times> 'd TransportLayer) option" where
  "TransportLayer_send down_send now t data =
     (case data of
        None \<Rightarrow> Some (TRANSPORT_ERROR_INVALID_PARAMS, t)
      | Some bytes \<Rightarrow>
          if length bytes = 0 \<or> length bytes > TRANSPORT_MAX_PAYLOAD_SIZE then
            Some (TRANSPORT_ERROR_INVALID_PARAMS, t)
          else if state_' t \<noteq> TRANSPORT_STATE_CONNECTED then
            Some (TRANSPORT_ERROR_INVALID_STATE, t)
          else
            (let packet = [TRANSPORT_PACKET_TYPE_DATA, connection_id_' t, sequence_number_' t,
                           of_nat (length bytes)] @ bytes;
                 t1 = t\<lparr>last_tx_buffer_' := packet @ drop (length packet) (last_tx_buffer_' t),
                        last_tx_length_' := of_nat (TRANSPORT_HEADER_SIZE + length bytes)\<rparr>
             in
               case down_layer t1 of
                 None \<Rightarrow> Some (TRANSPORT_ERROR_INVALID_STATE, t1)
               | Some d \<Rightarrow>
                   (case down_send (take (unat (last_tx_length_' t1)) (last_tx_buffer_' t1)) d of
                      None \<Rightarrow> None
                    | Some (result, d') \<Rightarrow>
                        (let t2 = t1\<lparr>down_layer := Some d'\<rparr> in
                         if result < 0 then Some (result, t2)
                         else
                           Some (TRANSPORT_SUCCESS,
                             t2\<lparr>waiting_response_' := True, last_tx_time_' := now,
                                sequence_number_' :=
                                  word_of_int ((uint (sequence_number_' t2) + 1) mod 256)\<rparr>)))))"

definition TransportLayer_send_datagram ::
  "'d down_send \<Rightarrow> 'd TransportLayer \<Rightarrow> u8 list option \<Rightarrow> (int \<times> 'd TransportLayer) option" where
  "TransportLayer_send_datagram down_send t data =
     (case data of
        None \<Rightarrow> Some (TRANSPORT_ERROR_INVALID_PARAMS, t)
      | Some bytes \<Rightarrow>
          (case down_layer t of
             None \<Rightarrow> Some (TRANSPORT_ERROR_INVALID_PARAMS, t)
           | Some d \<Rightarrow>
               if length bytes > TRANSPORT_MAX_PAYLOAD_SIZE then
                 Some (TRANSPORT_ERROR_INVALID_PARAMS, t)
               else
                 (let packet = [TRANSPORT_PACKET_TYPE_DATAGRAM, of_nat (length bytes)] @ bytes;
                      t1 = t\<lparr>tx_buffer_' := packet @ drop (length packet) (tx_buffer_' t)\<rparr>
                  in
                    case down_send packet d of
                      None \<Rightarrow> None
                    | Some (result, d') \<Rightarrow>
                        (let t2 = t1\<lparr>down_layer := Some d'\<rparr> in
                         if result < 0 then Some (TRANSPORT_ERROR_SEND_FAILED, t2)
                         else Some (result, t2)))))"

subsection \<open>Packet handlers\<close>

text \<open>
  A received packet is the list \<open>bytes\<close>; \<open>on_receive\<close> has checked that it holds the four
  bytes of a \<open>TransportPacketHeader\<close> (type, connection id, sequence, length) before a
  handler runs.
\<close>

definition handle_data_packet ::
  "'d down_send \<Rightarrow> u8 list \<Rightarrow> 'd TransportLayer \<Rightarrow> (int \<times> 'd TransportLayer) option" where
  "handle_data_packet down_send bytes t =
     (let header_connection_id = bytes ! 1;
          header_sequence = bytes ! 2
      in
        if header_connection_id \<noteq> connection_id_' t then Some (- 1, t)
        else
          (let payload = drop TRANSPORT_HEADER_SIZE bytes in
           if header_sequence \<noteq> peer_sequence_number_' t then
             map_option (Pair (- 1))
               (send_data_nack down_send (connection_id_' t) header_sequence t)
           else
             (let t1 = (case manager_' t of
                          None \<Rightarrow> t
                        | Some calls \<Rightarrow>
                            t\<lparr>manager_' := Some (calls @ [manager_on_receive payload])\<rparr>)
              in
                case send_data_ack down_send (connection_id_' t1) header_sequence t1 of
                  None \<Rightarrow> None
                | Some t2 \<Rightarrow>
                    Some (0, t2\<lparr>peer_sequence_number_' :=
                                 word_of_int ((uint (peer_sequence_number_' t2) + 1) mod 256)\<rparr>))))"

definition handle_syn_packet ::
  "'d down_send \<Rightarrow> u32 \<Rightarrow> u8 \<Rightarrow> u8 \<Rightarrow> 'd TransportLayer \<Rightarrow> 'd TransportLayer option" where
  "handle_syn_packet down_send now connection_id sequence_number t =
     (let t1 = t\<lparr>peer_sequence_number_' := sequence_number\<rparr> in
      if state_' t1 = TRANSPORT_STATE_CONNECTED \<and> connection_id = TRANSPORT_CONNECTION_ID_INVALID
        then Some (report_event TRANSPORT_LAYER_EVENT_ERROR
                     (t1\<lparr>state_' := TRANSPORT_STATE_DISCONNECTED\<rparr>))
      else if state_' t1 \<noteq> TRANSPORT_STATE_LISTENING then Some t1
      else if connection_id \<noteq> TRANSPORT_CONNECTION_ID_INVALID then Some t1
      else
        send_syn_ack down_send
          (t1\<lparr>state_' := TRANSPORT_STATE_CONNECTING, waiting_response_' := True,
              sequence_number_' := ucast (now AND 0xFF)\<rparr>))"

definition handle_syn_ack_packet ::
  "'d down_send \<Rightarrow> u32 \<Rightarrow> u8 \<Rightarrow> u8 \<Rightarrow> 'd TransportLayer \<Rightarrow> 'd TransportLayer option" where
  "handle_syn_ack_packet down_send now connection_id sequence_number t =
     (if state_' t \<noteq> TRANSPORT_STATE_CONNECTING then Some t
      else
        (case send_ack down_send connection_id sequence_number
                (t\<lparr>connection_id_' := connection_id,
                   peer_sequence_number_' := sequence_number\<rparr>) of
           None \<Rightarrow> None
         | Some t1 \<Rightarrow>
             Some (report_event TRANSPORT_LAYER_EVENT_CONNECTED
                     (t1\<lparr>state_' := TRANSPORT_STATE_CONNECTED, waiting_response_' := False,
                         connect_retries_' := 0, last_keepalive_ack_time_' := now\<rparr>))))"

definition handle_ack_packet ::
  "u32 \<Rightarrow> u8 \<Rightarrow> u8 \<Rightarrow> 'd TransportLayer \<Rightarrow> 'd TransportLayer" where
  "handle_ack_packet now connection_id sequence_number t =
     (if connection_id \<noteq> connection_id_' t then t
      else if state_' t = TRANSPORT_STATE_CONNECTING then
        (if sequence_number = sequence_number_' t then
           report_event TRANSPORT_LAYER_EVENT_CONNECTED
             (t\<lparr>state_' := TRANSPORT_STATE_CONNECTED, waiting_response_' := False,
                connect_retries_' := 0, last_keepalive_ack_time_' := now\<rparr>)
         else t)
      else if state_' t = TRANSPORT_STATE_DISCONNECTING then
        report_event TRANSPORT_LAYER_EVENT_DISCONNECTED
          (t\<lparr>state_' := TRANSPORT_STATE_DISCONNECTED, waiting_response_' := False,
             connection_id_' := TRANSPORT_CONNECTION_ID_INVALID\<rparr>)
      else t)"

definition handle_fin_packet ::
  "'d down_send \<Rightarrow> u8 \<Rightarrow> 'd TransportLayer \<Rightarrow> 'd TransportLayer option" where
  "handle_fin_packet down_send connection_id t =
     (if connection_id \<noteq> connection_id_' t then Some t
      else if state_' t \<noteq> TRANSPORT_STATE_CONNECTED then Some t
      else
        (case send_ack down_send connection_id (sequence_number_' t) t of
           None \<Rightarrow> None
         | Some t1 \<Rightarrow>
             (case send_fin down_send t1 of
                None \<Rightarrow> None
              | Some t2 \<Rightarrow>
                  Some (t2\<lparr>state_' := TRANSPORT_STATE_DISCONNECTING,
                           waiting_response_' := True\<rparr>))))"

definition handle_fin_ack_packet :: "u8 \<Rightarrow> 'd TransportLayer \<Rightarrow> 'd TransportLayer" where
  "handle_fin_ack_packet connection_id t =
     (if connection_id \<noteq> connection_id_' t then t
      else if state_' t \<noteq> TRANSPORT_STATE_DISCONNECTING then t
      else
        report_event TRANSPORT_LAYER_EVENT_DISCONNECTED
          (t\<lparr>state_' := TRANSPORT_STATE_DISCONNECTED, waiting_response_' := False\<rparr>))"

text \<open>
  In \<open>sequence_number != sequence_number_ - 1\<close> both operands are promoted to \<open>int\<close>: the
  right-hand side is \<open>- 1\<close> when \<open>sequence_number_\<close> is \<open>0\<close>.
\<close>

definition handle_data_ack_packet :: "u8 \<Rightarrow> u8 \<Rightarrow> 'd TransportLayer \<Rightarrow> 'd TransportLayer" where
  "handle_data_ack_packet connection_id sequence_number t =
     (if connection_id \<noteq> connection_id_' t then t
      else if \<not> awaiting_ack_' t \<or> uint sequence_number \<noteq> uint (sequence_number_' t) - 1
        then t
      else t\<lparr>awaiting_ack_' := False, retry_count_' := 0\<rparr>)"

definition handle_data_nack_packet ::
  "'d down_send \<Rightarrow> u8 \<Rightarrow> u8 \<Rightarrow> 'd TransportLayer \<Rightarrow> 'd TransportLayer option" where
  "handle_data_nack_packet down_send connection_id sequence_number t =
     (if connection_id \<noteq> connection_id_' t then Some t
      else if \<not> awaiting_ack_' t \<or> uint sequence_number \<noteq> uint (sequence_number_' t) - 1
        then Some t
      else
        (case down_layer t of
           None \<Rightarrow> Some t
         | Some d \<Rightarrow>
             map_option snd
               (down_layer_send down_send
                  (take (unat (last_tx_length_' t)) (last_tx_buffer_' t)) t)))"

definition handle_keepalive_packet ::
  "'d down_send \<Rightarrow> u8 \<Rightarrow> 'd TransportLayer \<Rightarrow> (int \<times> 'd TransportLayer) option" where
  "handle_keepalive_packet down_send connection_id t =
     (if connection_id \<noteq> connection_id_' t then Some (- 1, t)
      else
        map_option (Pair 0)
          (send_control down_send TRANSPORT_PACKET_TYPE_KEEPALIVE_ACK (connection_id_' t) 0 t))"

definition handle_keepalive_ack_packet ::
  "u32 \<Rightarrow> u8 \<Rightarrow> 'd TransportLayer \<Rightarrow> int \<times> 'd TransportLayer" where
  "handle_keepalive_ack_packet now connection_id t =
     (if connection_id \<noteq> connection_id_' t then (- 1, t)
      else (0, t\<lparr>last_keepalive_ack_time_' := now\<rparr>))"

definition handle_datagram_packet :: "u8 list \<Rightarrow> 'd TransportLayer \<Rightarrow> int \<times> 'd TransportLayer" where
  "handle_datagram_packet bytes t =
     (let payload = drop 2 bytes in
      (0, case manager_' t of
            None \<Rightarrow> t
          | Some calls \<Rightarrow> t\<lparr>manager_' := Some (calls @ [manager_on_datagram payload])\<rparr>))"

subsection \<open>Receiving\<close>

definition TransportLayer_on_receive ::
  "'d down_send \<Rightarrow> u32 \<Rightarrow> 'd TransportLayer \<Rightarrow> u8 list option \<Rightarrow>
     (int \<times> 'd TransportLayer) option" where
  "TransportLayer_on_receive down_send now t data =
     (case data of
        None \<Rightarrow> Some (- 1, t)
      | Some bytes \<Rightarrow>
          if length bytes = 0 then Some (- 1, t)
          else if length bytes < 4 then Some (- 1, t)
          else
            (let header_type = bytes ! 0;
                 header_connection_id = bytes ! 1;
                 header_sequence = bytes ! 2
             in
               if header_type \<ge> TRANSPORT_PACKET_TYPE_MAX then Some (- 1, t)
               else if header_type = TRANSPORT_PACKET_TYPE_SYN then
                 (if state_' t = TRANSPORT_STATE_LISTENING \<or> state_' t = TRANSPORT_STATE_CONNECTED
                  then map_option (Pair 0)
                         (handle_syn_packet down_send now header_connection_id header_sequence t)
                  else Some (- 1, t))
               else if header_type = TRANSPORT_PACKET_TYPE_SYN_ACK then
                 (if state_' t = TRANSPORT_STATE_CONNECTING
                  then map_option (Pair 0)
                         (handle_syn_ack_packet down_send now header_connection_id
                            header_sequence t)
                  else Some (- 1, t))
               else if header_type = TRANSPORT_PACKET_TYPE_ACK then
                 (if state_' t = TRANSPORT_STATE_CONNECTING \<or>
                     state_' t = TRANSPORT_STATE_DISCONNECTING
                  then Some (0, handle_ack_packet now header_connection_id header_sequence t)
                  else Some (- 1, t))
               else if header_type = TRANSPORT_PACKET_TYPE_FIN then
                 (if state_' t = TRANSPORT_STATE_CONNECTED
                  then map_option (Pair 0) (handle_fin_packet down_send header_connection_id t)
                  else Some (- 1, t))
               else if header_type = TRANSPORT_PACKET_TYPE_FIN_ACK then
                 (if state_' t = TRANSPORT_STATE_DISCONNECTING
                  then Some (0, handle_fin_ack_packet header_connection_id t)
                  else Some (- 1, t))
               else if header_type = TRANSPORT_PACKET_TYPE_DATA then
                 (if state_' t = TRANSPORT_STATE_CONNECTED
                  then handle_data_packet down_send bytes t
                  else Some (- 1, t))
               else if header_type = TRANSPORT_PACKET_TYPE_DATA_ACK then
                 (if state_' t = TRANSPORT_STATE_CONNECTED
                  then Some (0, handle_data_ack_packet header_connection_id header_sequence t)
                  else Some (- 1, t))
               else if header_type = TRANSPORT_PACKET_TYPE_DATA_NACK then
                 (if state_' t = TRANSPORT_STATE_CONNECTED
                  then map_option (Pair 0)
                         (handle_data_nack_packet down_send header_connection_id
                            header_sequence t)
                  else Some (- 1, t))
               else if header_type = TRANSPORT_PACKET_TYPE_KEEPALIVE then
                 (if state_' t = TRANSPORT_STATE_CONNECTED
                  then handle_keepalive_packet down_send header_connection_id t
                  else Some (- 1, t))
               else if header_type = TRANSPORT_PACKET_TYPE_KEEPALIVE_ACK then
                 (if state_' t = TRANSPORT_STATE_CONNECTED
                  then Some (handle_keepalive_ack_packet now header_connection_id t)
                  else Some (- 1, t))
               else if header_type = TRANSPORT_PACKET_TYPE_DATAGRAM then
                 (if state_' t \<noteq> TRANSPORT_STATE_ERROR
                  then Some (handle_datagram_packet bytes t)
                  else Some (- 1, t))
               else Some (- 1, t)))"

subsection \<open>The periodic tick\<close>

text \<open>
  The differences and the product are computed in \<open>uint32_t\<close>, as in the source.  The
  local \<open>elapsed_ms\<close> of the source is never read.
\<close>

definition TransportLayer_tick ::
  "'d down_send \<Rightarrow> u32 \<Rightarrow> 'd TransportLayer \<Rightarrow> 'd TransportLayer option" where
  "TransportLayer_tick down_send now t =
     (let current_time = now;
          t1 = t\<lparr>last_tick_time_' := current_time\<rparr>
      in
        case state_' t1 of
          TRANSPORT_STATE_CONNECTED \<Rightarrow>
            if current_time - last_keepalive_ack_time_' t1 > keepalive_interval_' t1 * 3 then
              Some (report_event TRANSPORT_LAYER_EVENT_TIMEOUT
                      (t1\<lparr>state_' := TRANSPORT_STATE_DISCONNECTING\<rparr>))
            else if current_time - last_keepalive_ack_time_' t1 > keepalive_interval_' t1 then
              send_keepalive down_send t1
            else Some t1
        | TRANSPORT_STATE_CONNECTING \<Rightarrow>
            if waiting_response_' t1 \<and>
               current_time - last_tx_time_' t1 > connection_timeout_' t1 then
              (if connect_retries_' t1 < TRANSPORT_MAX_RETRIES then
                 send_syn down_send (t1\<lparr>connect_retries_' := connect_retries_' t1 + 1\<rparr>)
               else
                 Some (report_event TRANSPORT_LAYER_EVENT_TIMEOUT
                         (t1\<lparr>state_' := TRANSPORT_STATE_ERROR\<rparr>)))
            else Some t1
        | TRANSPORT_STATE_DISCONNECTING \<Rightarrow>
            if waiting_response_' t1 \<and>
               current_time - last_tx_time_' t1 > connection_timeout_' t1 then
              Some (report_event TRANSPORT_LAYER_EVENT_DISCONNECTED
                      (t1\<lparr>state_' := TRANSPORT_STATE_DISCONNECTED, waiting_response_' := False,
                          connection_id_' := TRANSPORT_CONNECTION_ID_INVALID\<rparr>))
            else Some t1
        | _ \<Rightarrow> Some t1)"

subsection \<open>Reachable states\<close>

text \<open>
  The states a transport layer can be in: it is constructed, and then any of its public
  functions is called with any arguments, at any time; the layer below may change its
  own state between calls.
\<close>

inductive reachable :: "'d down_send \<Rightarrow> 'd TransportLayer \<Rightarrow> bool"
  for down_send :: "'d down_send" where
  constructed: "reachable down_send (TransportLayer_constructor t)"
| down_layer_set: "reachable down_send t \<Longrightarrow> reachable down_send (set_down_layer d t)"
| stack_manager_set: "reachable down_send t \<Longrightarrow> reachable down_send (set_stack_manager calls t)"
| down_layer_changed:
    "reachable down_send t \<Longrightarrow> down_layer t = Some d \<Longrightarrow>
     reachable down_send (t\<lparr>down_layer := Some d'\<rparr>)"
| initialized: "reachable down_send t \<Longrightarrow> reachable down_send (TransportLayer_initialize now t)"
| deinitialized: "reachable down_send t \<Longrightarrow> reachable down_send (TransportLayer_deinitialize now t)"
| timeout_set:
    "reachable down_send t \<Longrightarrow>
     reachable down_send (TransportLayer_set_timeout keepalive_ms timeout_ms t)"
| connect_called:
    "reachable down_send t \<Longrightarrow> TransportLayer_connect down_send now t = Some (result, t') \<Longrightarrow>
     reachable down_send t'"
| listen_called:
    "reachable down_send t \<Longrightarrow> TransportLayer_listen t = (result, t') \<Longrightarrow>
     reachable down_send t'"
| disconnect_called:
    "reachable down_send t \<Longrightarrow> TransportLayer_disconnect down_send t = Some (result, t') \<Longrightarrow>
     reachable down_send t'"
| send_called:
    "reachable down_send t \<Longrightarrow> TransportLayer_send down_send now t data = Some (result, t') \<Longrightarrow>
     reachable down_send t'"
| send_datagram_called:
    "reachable down_send t \<Longrightarrow>
     TransportLayer_send_datagram down_send t data = Some (result, t') \<Longrightarrow>
     reachable down_send t'"
| on_receive_called:
    "reachable down_send t \<Longrightarrow>
     TransportLayer_on_receive down_send now t data = Some (result, t') \<Longrightarrow>
     reachable down_send t'"
| tick_called:
    "reachable down_send t \<Longrightarrow> TransportLayer_tick down_send now t = Some t' \<Longrightarrow>
     reachable down_send t'"

section \<open>A concrete scenario\<close>

text \<open>
  The concrete inputs of the examples below.  The layer below the transport layer is one
  that accepts every packet and records it: its state is the list of the packets handed
  to it, oldest first.
\<close>

definition recording_send :: "(u8 list list) down_send" where
  "recording_send bytes sent = Some (0, sent @ [bytes])"

text \<open>Memory before the constructor runs: zeroes, the two arrays at their declared size.\<close>

definition fresh_memory :: "(u8 list list) TransportLayer" where
  "fresh_memory =
     \<lparr>down_layer = None, manager_' = None, state_' = TRANSPORT_STATE_DISCONNECTED,
      connect_retries_' = 0, last_keepalive_ack_time_' = 0, sequence_number_' = 0,
      peer_sequence_number_' = 0, awaiting_ack_' = False, last_tx_time_' = 0,
      retry_count_' = 0, waiting_response_' = False, last_tick_time_' = 0,
      connection_id_' = 0, tx_buffer_' = replicate 250 0, last_tx_buffer_' = replicate 250 0,
      last_tx_length_' = 0, keepalive_interval_' = 0, connection_timeout_' = 0\<rparr>"

text \<open>
  The client of scenarios S1 and S2 of the spec: constructed, wired to the recording
  layer and to a manager, initialised at time 0; \<open>connect\<close> at time \<open>0x42\<close>, so that the
  first sequence number is \<open>0x42\<close>; then the SYN-ACK of the server arrives, with
  connection id \<open>0x01\<close> and sequence \<open>0x17\<close>.
\<close>

definition client_ready :: "(u8 list list) TransportLayer" where
  "client_ready =
     TransportLayer_initialize 0
       (set_stack_manager [] (set_down_layer [] (TransportLayer_constructor fresh_memory)))"

definition client_connecting :: "(u8 list list) TransportLayer" where
  "client_connecting = snd (the (TransportLayer_connect recording_send 0x42 client_ready))"

definition client_connected :: "(u8 list list) TransportLayer" where
  "client_connected =
     snd (the (TransportLayer_on_receive recording_send 0x50 client_connecting
                 (Some [0x02, 0x01, 0x17, 0x00])))"

text \<open>The client after \<open>send\<close> of the payload \<open>DE AD BE EF\<close> at time \<open>0x60\<close>.\<close>

definition client_sent :: "(u8 list list) TransportLayer" where
  "client_sent =
     snd (the (TransportLayer_send recording_send 0x60 client_connected
                 (Some [0xDE, 0xAD, 0xBE, 0xEF])))"

text \<open>
  The connected client after \<open>set_timeout (0x55555556, 5000)\<close>: three times this keepalive
  interval is \<open>2 ^ 32 + 2\<close>.
\<close>

definition client_long_keepalive :: "(u8 list list) TransportLayer" where
  "client_long_keepalive = TransportLayer_set_timeout 0x55555556 5000 client_connected"

text \<open>
  A link layer in the error state whose egress buffer is full, one whose ingress buffer holds
  three bytes of noise, and an upper layer that ignores what it is given.
\<close>

definition link_full_in_error :: LinkLayer where
  "link_full_in_error =
     \<lparr>link_up_layer = True, link_down_layer = True, link_manager_' = Some [],
      link_state_' = LINK_STATE_ERROR, frame_buffer_' = replicate 254 0,
      encoded_buffer_' = replicate 257 0, encoded_length_' = 0,
      decode_buffer_' = replicate 254 0, outgoing_buffer_' = replicate 514 0x01,
      incoming_buffer_' = []\<rparr>"

definition link_with_noise :: LinkLayer where
  "link_with_noise =
     \<lparr>link_up_layer = True, link_down_layer = True, link_manager_' = Some [],
      link_state_' = LINK_STATE_READY, frame_buffer_' = replicate 254 0,
      encoded_buffer_' = replicate 257 0, encoded_length_' = 0,
      decode_buffer_' = replicate 254 0, outgoing_buffer_' = [],
      incoming_buffer_' = [0x05, 0x00, 0x07]\<rparr>"

definition ignoring_up_layer :: "u8 list \<Rightarrow> unit \<times> LinkLayer \<Rightarrow> (unit \<times> LinkLayer) option" where
  "ignoring_up_layer payload ul = Some ul"

section \<open>The encoder's output as a list of blocks\<close>

text \<open>
  A description of the encoder's output that the proofs use: \<open>cobs_blocks blk xs\<close> is
  what the encoder emits from the code byte of the block being filled onwards, when
  \<open>blk\<close> holds the literal bytes of that block so far and \<open>xs\<close> is the input still to
  read.  \<open>block_code blk\<close> is the value of the code counter for the block \<open>blk\<close>.
\<close>

definition block_code :: "u8 list \<Rightarrow> u8" where
  "block_code blk = of_nat (length blk + 1)"

fun cobs_blocks :: "u8 list \<Rightarrow> u8 list \<Rightarrow> u8 list" where
  "cobs_blocks blk [] = block_code blk # blk"
| "cobs_blocks blk (x # xs) =
     (if x = 0 then block_code blk # blk @ cobs_blocks [] xs
      else if length blk = 253 then 0xFF # (blk @ [x]) @ cobs_blocks [] xs
      else cobs_blocks (blk @ [x]) xs)"

section \<open>The COBS round trip\<close>

subsection \<open>Properties of the blocks\<close>

lemma unat_block_code: "length blk < 255 \<Longrightarrow> unat (block_code blk) = length blk + 1"
  unfolding block_code_def by (simp add: unat_of_nat del: of_nat_Suc of_nat_add)

lemma block_code_Nil [simp]: "block_code [] = 1"
  by (simp add: block_code_def)

lemma block_code_snoc: "block_code (blk @ [x]) = block_code blk + 1"
  by (simp add: block_code_def)

lemma block_code_neq_0: "length blk < 255 \<Longrightarrow> block_code blk \<noteq> 0"
  using unat_block_code [of blk] by auto

lemma block_code_max:
  assumes "length blk < 254"
  shows "block_code blk + 1 = COBS_MAX_CODE \<longleftrightarrow> length blk = 253"
proof -
  have "unat (block_code (blk @ [0])) = length blk + 2"
    using assms unat_block_code [of "blk @ [0]"] by simp
  then have "unat (block_code blk + 1) = length blk + 2"
    by (simp add: block_code_snoc)
  moreover have "unat COBS_MAX_CODE = 255"
    by (simp add: COBS_MAX_CODE_def)
  ultimately show ?thesis
    unfolding word_unat_eq_iff by simp
qed

lemma block_code_less_max:
  assumes "length blk < 254"
  shows "block_code blk < COBS_MAX_CODE"
  using assms unat_block_code [of blk] by (simp add: word_less_nat_alt COBS_MAX_CODE_def)

lemma cobs_blocks_not_Nil [simp]: "cobs_blocks blk xs \<noteq> []"
  by (induction xs arbitrary: blk) auto

lemma cobs_blocks_length_ge: "length blk < length (cobs_blocks blk xs)"
proof (induction xs arbitrary: blk)
  case Nil
  show ?case by simp
next
  case (Cons x xs)
  show ?case using Cons [of "blk @ [x]"] by auto
qed

lemma cobs_blocks_length_le:
  "length (cobs_blocks blk xs) \<le> 1 + length blk + length xs + (length blk + length xs) div 254"
proof (induction xs arbitrary: blk)
  case Nil
  show ?case by simp
next
  case (Cons x xs)
  have a: "length (cobs_blocks [] xs) \<le> 1 + length xs + length xs div 254"
    using Cons.IH [of "[]"] by simp
  have b: "length (cobs_blocks (blk @ [x]) xs)
      \<le> 1 + (length blk + 1) + length xs + (length blk + 1 + length xs) div 254"
    using Cons.IH [of "blk @ [x]"] by simp
  have c: "length xs div 254 \<le> (length blk + Suc (length xs)) div 254"
    by (rule div_le_mono) simp
  show ?case
  proof (cases "x = 0")
    case True
    with a c show ?thesis by simp
  next
    case False
    show ?thesis
    proof (cases "length blk = 253")
      case True
      with a False show ?thesis by simp
    next
      case False
      with b \<open>x \<noteq> 0\<close> show ?thesis by simp
    qed
  qed
qed

lemma cobs_blocks_nonzero:
  "0 \<notin> set blk \<Longrightarrow> length blk < 254 \<Longrightarrow> 0 \<notin> set (cobs_blocks blk xs)"
proof (induction xs arbitrary: blk)
  case Nil
  then show ?case using block_code_neq_0 [of blk] by auto
next
  case (Cons x xs)
  have e: "0 \<notin> set (cobs_blocks [] xs)"
    by (rule Cons.IH) simp_all
  show ?case
  proof (cases "x = 0 \<or> length blk = 253")
    case True
    with Cons.prems e show ?thesis
      using block_code_neq_0 [of blk] by auto
  next
    case False
    then have "0 \<notin> set (cobs_blocks (blk @ [x]) xs)"
      using Cons.prems by (intro Cons.IH) auto
    with False show ?thesis by simp
  qed
qed

subsection \<open>The encoder loop writes the blocks\<close>

text \<open>
  The loop invariant: the output array is \<open>pre @ c0 # blk @ post\<close>, where \<open>pre\<close> holds the
  closed blocks, \<open>c0\<close> is the cell kept for the code byte of the open block, \<open>blk\<close> the
  literal bytes of the open block and \<open>post\<close> the cells not yet written.
\<close>

lemma encode_loop_blocks:
  assumes "out = pre @ c0 # blk @ post"
    and "length blk < 254"
    and "read_index \<le> length inp"
    and "length (cobs_blocks blk (drop read_index inp)) \<le> 1 + length blk + length post"
  shows "encode_loop inp read_index (length pre + 1 + length blk) (length pre) (block_code blk) out =
     (length pre + length (cobs_blocks blk (drop read_index inp)),
      pre @ cobs_blocks blk (drop read_index inp) @
        drop (length (cobs_blocks blk (drop read_index inp)) - 1 - length blk) post)"
  using assms
proof (induction "length inp - read_index" arbitrary: read_index out pre c0 blk post)
  case 0
  then have "drop read_index inp = []" and "\<not> read_index < length inp"
    by simp_all
  with 0 show ?case
    by (subst encode_loop.simps) simp
next
  case (Suc n)
  from Suc.hyps(2) have r: "read_index < length inp"
    by simp
  define x where "x = inp ! read_index"
  define rest where "rest = drop (Suc read_index) inp"
  have d: "drop read_index inp = x # rest"
    unfolding x_def rest_def using r by (simp add: Cons_nth_drop_Suc)
  have n: "n = length inp - Suc read_index" and r': "Suc read_index \<le> length inp"
    using Suc.hyps(2) by simp_all
  note out = \<open>out = pre @ c0 # blk @ post\<close>
  note room = \<open>length (cobs_blocks blk (drop read_index inp)) \<le> 1 + length blk + length post\<close>
  note short = \<open>length blk < 254\<close>
  show ?case
  proof (cases "x = 0")
    case True
    from room d True have "length (cobs_blocks [] rest) \<le> length post"
      by simp
    moreover have "0 < length (cobs_blocks [] rest)"
      by simp
    ultimately obtain p post' where post: "post = p # post'"
      and room': "length (cobs_blocks [] rest) \<le> 1 + length post'"
      by (cases post) auto
    let ?pre = "pre @ block_code blk # blk"
    have upd: "out[length pre := block_code blk] = ?pre @ p # [] @ post'"
      by (simp add: out post)
    have step: "encode_loop inp read_index (length pre + 1 + length blk) (length pre)
          (block_code blk) out =
        encode_loop inp (Suc read_index) (length ?pre + 1 + length ([]::u8 list)) (length ?pre)
          (block_code []) (?pre @ p # [] @ post')"
      using r True upd by (subst encode_loop.simps) (simp add: x_def)
    have ih: "encode_loop inp (Suc read_index) (length ?pre + 1 + length ([]::u8 list))
          (length ?pre) (block_code []) (?pre @ p # [] @ post') =
        (length ?pre + length (cobs_blocks [] (drop (Suc read_index) inp)),
         ?pre @ cobs_blocks [] (drop (Suc read_index) inp) @
           drop (length (cobs_blocks [] (drop (Suc read_index) inp)) - 1 - length ([]::u8 list)) post')"
      using room' by (intro Suc.hyps(1) [OF n refl _ r']) (simp_all add: rest_def)
    have "drop (length (cobs_blocks [] rest)) (p # post') =
        drop (length (cobs_blocks [] rest) - 1) post'"
      using \<open>0 < length (cobs_blocks [] rest)\<close> by (cases "length (cobs_blocks [] rest)") simp_all
    then show ?thesis
      unfolding step ih d by (simp add: True post rest_def [symmetric])
  next
    case False
    show ?thesis
    proof (cases "length blk = 253")
      case True
      from room d True False have "Suc (length (cobs_blocks [] rest)) \<le> length post"
        by simp
      moreover have pos: "0 < length (cobs_blocks [] rest)"
        by simp
      ultimately obtain p q post' where post: "post = p # q # post'"
        and room': "length (cobs_blocks [] rest) \<le> 1 + length post'"
        by (cases post; cases "tl post") auto
      let ?pre = "pre @ COBS_MAX_CODE # blk @ [x]"
      have code: "block_code blk + 1 = COBS_MAX_CODE"
        using block_code_max [OF short] True by simp
      have upd: "(out[length pre + 1 + length blk := x])[length pre := COBS_MAX_CODE] =
          ?pre @ q # [] @ post'"
        by (simp add: out post list_update_append nth_append)
      have step: "encode_loop inp read_index (length pre + 1 + length blk) (length pre)
            (block_code blk) out =
          encode_loop inp (Suc read_index) (length ?pre + 1 + length ([]::u8 list)) (length ?pre)
            (block_code []) (?pre @ q # [] @ post')"
        using r False upd code by (subst encode_loop.simps) (simp add: x_def Let_def)
      have ih: "encode_loop inp (Suc read_index) (length ?pre + 1 + length ([]::u8 list))
            (length ?pre) (block_code []) (?pre @ q # [] @ post') =
          (length ?pre + length (cobs_blocks [] (drop (Suc read_index) inp)),
           ?pre @ cobs_blocks [] (drop (Suc read_index) inp) @
             drop (length (cobs_blocks [] (drop (Suc read_index) inp)) - 1 - length ([]::u8 list)) post')"
        using room' by (intro Suc.hyps(1) [OF n refl _ r']) (simp_all add: rest_def)
      have "drop (Suc (length (cobs_blocks [] rest))) (p # q # post') =
          drop (length (cobs_blocks [] rest) - 1) post'"
        using pos by (cases "length (cobs_blocks [] rest)") simp_all
      then show ?thesis
        unfolding step ih d
        by (simp add: True False post rest_def [symmetric] COBS_MAX_CODE_def)
    next
      case neq: False
      from room d neq False
      have "length (cobs_blocks (blk @ [x]) rest) \<le> 1 + length blk + length post"
        by simp
      moreover have longer: "length (blk @ [x]) < length (cobs_blocks (blk @ [x]) rest)"
        by (rule cobs_blocks_length_ge)
      ultimately obtain p post' where post: "post = p # post'"
        and room': "length (cobs_blocks (blk @ [x]) rest) \<le> 1 + length (blk @ [x]) + length post'"
        by (cases post) auto
      have short': "length (blk @ [x]) < 254"
        using short neq by simp
      have code: "block_code blk + 1 \<noteq> COBS_MAX_CODE"
        using block_code_max [OF short] neq by simp
      have upd: "out[length pre + 1 + length blk := x] = pre @ c0 # (blk @ [x]) @ post'"
        by (simp add: out post list_update_append nth_append)
      have step: "encode_loop inp read_index (length pre + 1 + length blk) (length pre)
            (block_code blk) out =
          encode_loop inp (Suc read_index) (length pre + 1 + length (blk @ [x])) (length pre)
            (block_code (blk @ [x])) (pre @ c0 # (blk @ [x]) @ post')"
        using r False upd code
        by (subst encode_loop.simps) (simp add: x_def Let_def block_code_snoc)
      have ih: "encode_loop inp (Suc read_index) (length pre + 1 + length (blk @ [x]))
            (length pre) (block_code (blk @ [x])) (pre @ c0 # (blk @ [x]) @ post') =
          (length pre + length (cobs_blocks (blk @ [x]) (drop (Suc read_index) inp)),
           pre @ cobs_blocks (blk @ [x]) (drop (Suc read_index) inp) @
             drop (length (cobs_blocks (blk @ [x]) (drop (Suc read_index) inp)) - 1 -
               length (blk @ [x])) post')"
        using room' by (intro Suc.hyps(1) [OF n refl short' r']) (simp_all add: rest_def)
      have "length (cobs_blocks (blk @ [x]) rest) - 1 - length blk =
          Suc (length (cobs_blocks (blk @ [x]) rest) - 1 - length (blk @ [x]))"
        using longer by simp
      then show ?thesis
        unfolding step ih d
        by (simp add: neq False post rest_def [symmetric])
    qed
  qed
qed

subsection \<open>The decoder loops read the blocks back\<close>

lemma copy_loop_spec:
  assumes "unat i \<le> unat code"
    and "read_index + (unat code - unat i) \<le> length inp"
    and "write_index + (unat code - unat i) \<le> length out"
  shows "copy_loop inp code i read_index write_index out =
     (read_index + (unat code - unat i), write_index + (unat code - unat i),
      take write_index out @ take (unat code - unat i) (drop read_index inp) @
        drop (write_index + (unat code - unat i)) out)"
  using assms
proof (induction "unat code - unat i" arbitrary: i read_index write_index out)
  case 0
  then have "\<not> i < code"
    by (simp add: word_less_nat_alt)
  with 0 show ?case
    by (subst copy_loop.simps) simp
next
  case (Suc k)
  from Suc.hyps(2) have lt: "unat i < unat code"
    by simp
  then have i: "i < code"
    by (simp add: word_less_nat_alt)
  have "unat code < 2 ^ LENGTH(8)"
    by (rule unsigned_less)
  with lt have i1: "unat (i + 1) = unat i + 1"
    by (simp add: unat_word_ariths)
  with Suc.hyps(2) have k: "k = unat code - unat (i + 1)" and k': "unat code - unat i = Suc k"
    by simp_all
  have r: "read_index < length inp" and w: "write_index < length out"
    using Suc.prems k' by simp_all
  have ih: "copy_loop inp code (i + 1) (read_index + 1) (write_index + 1)
        (out[write_index := inp ! read_index]) =
      (read_index + 1 + k, write_index + 1 + k,
       take (write_index + 1) (out[write_index := inp ! read_index]) @
         take k (drop (read_index + 1) inp) @
         drop (write_index + 1 + k) (out[write_index := inp ! read_index]))"
    using Suc.hyps(1) [OF k, of "read_index + 1" "write_index + 1"
        "out[write_index := inp ! read_index]"] Suc.prems i1 lt k
    by simp
  have t: "take (write_index + 1) (out[write_index := inp ! read_index]) =
      take write_index out @ [inp ! read_index]"
    using w by (simp add: take_Suc_conv_app_nth)
  have d: "take (Suc k) (drop read_index inp) = inp ! read_index # take k (drop (read_index + 1) inp)"
    using r by (simp add: Cons_nth_drop_Suc [symmetric])
  show ?case
    using i ih t d by (subst copy_loop.simps) (simp add: k')
qed

text \<open>What a segment of the input that starts with the bytes \<open>c # lit @ rest\<close> tells.\<close>

lemma segment_facts:
  assumes seg: "take (frame_end - read_index) (drop read_index inp) = c # lit @ rest"
    and fe: "frame_end \<le> length inp"
  shows "frame_end - read_index = 1 + length lit + length rest"
    and "inp ! read_index = c"
    and "take (length lit) (drop (read_index + 1) inp) = lit"
    and "take (frame_end - (read_index + 1 + length lit)) (drop (read_index + 1 + length lit) inp) = rest"
proof -
  have "length (take (frame_end - read_index) (drop read_index inp)) = frame_end - read_index"
    using fe by simp
  with seg show len: "frame_end - read_index = 1 + length lit + length rest"
    by simp
  then have r: "read_index < length inp"
    using fe by simp
  have "(take (frame_end - read_index) (drop read_index inp)) ! 0 = inp ! read_index"
    using len r by simp
  with seg show "inp ! read_index = c"
    by simp
  have "drop 1 (take (frame_end - read_index) (drop read_index inp)) = lit @ rest"
    using seg by simp
  then have tl: "take (length lit + length rest) (drop (read_index + 1) inp) = lit @ rest"
    using len by (simp add: drop_take)
  have "take (length lit) (take (length lit + length rest) (drop (read_index + 1) inp)) = lit"
    unfolding tl by simp
  then show "take (length lit) (drop (read_index + 1) inp) = lit"
    by simp
  have "drop (length lit) (take (length lit + length rest) (drop (read_index + 1) inp)) = rest"
    unfolding tl by simp
  moreover have "frame_end - (read_index + 1 + length lit) = length rest"
    using len by simp
  ultimately show "take (frame_end - (read_index + 1 + length lit))
      (drop (read_index + 1 + length lit) inp) = rest"
    by (simp add: drop_take add.commute)
qed

text \<open>One iteration of the decoder loop on a block \<open>c # lit\<close> followed by \<open>rest\<close>.\<close>

lemma decode_loop_step:
  assumes seg: "take (frame_end - read_index) (drop read_index inp) = c # lit @ rest"
    and fe: "frame_end \<le> length inp"
    and c: "unat c = length lit + 1"
    and w: "write_index + length lit \<le> length out"
    and w0: "c < COBS_MAX_CODE \<and> rest \<noteq> [] \<Longrightarrow> write_index + length lit < length out"
  shows "decode_loop inp frame_end read_index write_index out =
     (if c < COBS_MAX_CODE \<and> rest \<noteq> [] then
        decode_loop inp frame_end (read_index + 1 + length lit) (write_index + length lit + 1)
          (take write_index out @ lit @ 0 # drop (write_index + length lit + 1) out)
      else
        decode_loop inp frame_end (read_index + 1 + length lit) (write_index + length lit)
          (take write_index out @ lit @ drop (write_index + length lit) out))"
proof -
  note f = segment_facts [OF seg fe]
  have r: "read_index < frame_end"
    using f(1) by simp
  have c0: "c \<noteq> 0"
    using c by auto
  have fits: "\<not> read_index + 1 + unat c - 1 > frame_end"
    using f(1) c by simp
  have k: "unat c - unat (1::u8) = length lit"
    using c by simp
  have copy: "copy_loop inp c 1 (read_index + 1) write_index out =
      (read_index + 1 + length lit, write_index + length lit,
       take write_index out @ lit @ drop (write_index + length lit) out)"
    using copy_loop_spec [of 1 c "read_index + 1" inp write_index out] c f(1,3) fe w
    by (simp add: k)
  have "0 < length rest \<longleftrightarrow> rest \<noteq> []"
    by simp
  with f(1) have more: "read_index + 1 + length lit < frame_end \<longleftrightarrow> rest \<noteq> []"
    by linarith
  have upd: "(take write_index out @ lit @ drop (write_index + length lit) out)
        [write_index + length lit := 0] =
      take write_index out @ lit @ 0 # drop (write_index + length lit + 1) out"
    if "write_index + length lit < length out"
  proof -
    have "drop (write_index + length lit) out =
        out ! (write_index + length lit) # drop (write_index + length lit + 1) out"
      using that by (simp add: Cons_nth_drop_Suc)
    moreover have "length (take write_index out @ lit) = write_index + length lit"
      using w by simp
    ultimately show ?thesis
      by (metis append.assoc list_update_length)
  qed
  show ?thesis
  proof (cases "c < COBS_MAX_CODE \<and> rest \<noteq> []")
    case True
    then show ?thesis
      using r c0 fits copy more f(2) upd w0
      by (subst decode_loop.simps) (auto simp: Let_def)
  next
    case False
    with r c0 fits copy more f(2) show ?thesis
      by (subst decode_loop.simps) (auto simp: Let_def)
  qed
qed

lemma decode_loop_blocks:
  assumes "take (frame_end - read_index) (drop read_index inp) = cobs_blocks blk xs"
    and "frame_end \<le> length inp"
    and "length blk < 254"
    and "write_index + length blk + length xs \<le> length out"
  shows "decode_loop inp frame_end read_index write_index out =
     (Inr (write_index + length blk + length xs),
      take write_index out @ blk @ xs @ drop (write_index + length blk + length xs) out)"
  using assms
proof (induction xs arbitrary: blk read_index write_index out)
  case Nil
  from Nil.prems(1) have seg: "take (frame_end - read_index) (drop read_index inp) =
      block_code blk # blk @ []"
    by simp
  have c: "unat (block_code blk) = length blk + 1"
    using Nil.prems(3) by (simp add: unat_block_code)
  have "frame_end - read_index = 1 + length blk + length ([]::u8 list)"
    by (rule segment_facts(1) [OF seg Nil.prems(2)])
  then have "\<not> read_index + 1 + length blk < frame_end"
    by simp
  then have "decode_loop inp frame_end (read_index + 1 + length blk) (write_index + length blk)
      (take write_index out @ blk @ drop (write_index + length blk) out) =
    (Inr (write_index + length blk), take write_index out @ blk @ drop (write_index + length blk) out)"
    by (subst decode_loop.simps) simp
  then show ?case
    using decode_loop_step [OF seg Nil.prems(2) c, of write_index out] Nil.prems(4)
    by simp
next
  case (Cons x xs)
  note fe = \<open>frame_end \<le> length inp\<close>
  note short = \<open>length blk < 254\<close>
  note room = \<open>write_index + length blk + length (x # xs) \<le> length out\<close>
  show ?case
  proof (cases "x = 0")
    case True
    with Cons.prems(1) have seg: "take (frame_end - read_index) (drop read_index inp) =
        block_code blk # blk @ cobs_blocks [] xs"
      by simp
    have c: "unat (block_code blk) = length blk + 1"
      using short by (simp add: unat_block_code)
    define out' where
      "out' = take write_index out @ blk @ 0 # drop (write_index + length blk + 1) out"
    have step: "decode_loop inp frame_end read_index write_index out =
        decode_loop inp frame_end (read_index + 1 + length blk) (write_index + length blk + 1) out'"
      using decode_loop_step [OF seg fe c, of write_index out] room block_code_less_max [OF short]
      by (simp add: out'_def)
    have seg': "take (frame_end - (read_index + 1 + length blk))
        (drop (read_index + 1 + length blk) inp) = cobs_blocks [] xs"
      by (rule segment_facts(4) [OF seg fe])
    have len: "length out' = length out"
      using room by (simp add: out'_def)
    have ih: "decode_loop inp frame_end (read_index + 1 + length blk) (write_index + length blk + 1) out' =
        (Inr (write_index + length blk + 1 + length ([]::u8 list) + length xs),
         take (write_index + length blk + 1) out' @ [] @ xs @
           drop (write_index + length blk + 1 + length ([]::u8 list) + length xs) out')"
      using room len by (intro Cons.IH [OF seg' fe]) simp_all
    have t: "take (write_index + length blk + 1) out' = take write_index out @ blk @ [0]"
      using room by (simp add: out'_def)
    have d: "drop (write_index + length blk + 1 + length xs) out' =
        drop (write_index + length blk + 1 + length xs) out"
      using room by (simp add: out'_def ac_simps)
    show ?thesis
      unfolding step ih using True t d by simp
  next
    case False
    show ?thesis
    proof (cases "length blk = 253")
      case True
      with Cons.prems(1) False have seg: "take (frame_end - read_index) (drop read_index inp) =
          COBS_MAX_CODE # (blk @ [x]) @ cobs_blocks [] xs"
        by (simp add: COBS_MAX_CODE_def)
      have c: "unat COBS_MAX_CODE = length (blk @ [x]) + 1"
        using True by (simp add: COBS_MAX_CODE_def)
      define out' where
        "out' = take write_index out @ (blk @ [x]) @ drop (write_index + length (blk @ [x])) out"
      have step: "decode_loop inp frame_end read_index write_index out =
          decode_loop inp frame_end (read_index + 1 + length (blk @ [x]))
            (write_index + length (blk @ [x])) out'"
        using decode_loop_step [OF seg fe c, of write_index out] room
        by (simp add: out'_def)
      have seg': "take (frame_end - (read_index + 1 + length (blk @ [x])))
          (drop (read_index + 1 + length (blk @ [x])) inp) = cobs_blocks [] xs"
        by (rule segment_facts(4) [OF seg fe])
      have len: "length out' = length out"
        using room by (simp add: out'_def)
      have ih: "decode_loop inp frame_end (read_index + 1 + length (blk @ [x]))
            (write_index + length (blk @ [x])) out' =
          (Inr (write_index + length (blk @ [x]) + length ([]::u8 list) + length xs),
           take (write_index + length (blk @ [x])) out' @ [] @ xs @
             drop (write_index + length (blk @ [x]) + length ([]::u8 list) + length xs) out')"
        using room len by (intro Cons.IH [OF seg' fe]) simp_all
      have t: "take (write_index + length (blk @ [x])) out' = take write_index out @ blk @ [x]"
        using room by (simp add: out'_def)
      have d: "drop (write_index + length (blk @ [x]) + length xs) out' =
          drop (write_index + length (blk @ [x]) + length xs) out"
        using room by (simp add: out'_def ac_simps)
      show ?thesis
        unfolding step ih using t d by simp
    next
      case neq: False
      with Cons.prems(1) False have seg: "take (frame_end - read_index) (drop read_index inp) =
          cobs_blocks (blk @ [x]) xs"
        by simp
      have "decode_loop inp frame_end read_index write_index out =
          (Inr (write_index + length (blk @ [x]) + length xs),
           take write_index out @ (blk @ [x]) @ xs @
             drop (write_index + length (blk @ [x]) + length xs) out)"
        using room short neq by (intro Cons.IH [OF seg fe]) simp_all
      then show ?thesis
        by simp
    qed
  qed
qed

lemma frame_end_loop_delimiter:
  assumes "0 \<notin> set enc" and "k \<le> length enc"
  shows "frame_end_loop (enc @ COBS_DELIMITER # rest) k = length enc"
  using assms
proof (induction "length enc - k" arbitrary: k)
  case 0
  then have "k = length enc" by simp
  then show ?case
    by (subst frame_end_loop.simps) simp
next
  case (Suc n)
  then have k: "k < length enc" by simp
  with Suc.prems(1) have "(enc @ COBS_DELIMITER # rest) ! k \<noteq> COBS_DELIMITER"
    by (auto simp: nth_append COBS_DELIMITER_def in_set_conv_nth)
  moreover have "frame_end_loop (enc @ COBS_DELIMITER # rest) (k + 1) = length enc"
    using Suc.hyps(2) k Suc.prems(1) by (intro Suc.hyps(1)) simp_all
  ultimately show ?case
    using k by (subst frame_end_loop.simps) simp
qed

lemma COBS_encode_blocks:
  assumes "S \<noteq> []" and "length S \<le> 254"
    and "length S + length S div 254 + 1 \<le> output_size"
    and "output_size \<le> length obuf"
  shows "\<exists>obuf'. COBS_encode (Some S) (Some obuf) output_size =
      (Inr (length (cobs_blocks [] S)), Some obuf') \<and>
      take (length (cobs_blocks [] S)) obuf' = cobs_blocks [] S"
proof -
  have bound: "length (cobs_blocks [] S) \<le> length S + length S div 254 + 1"
    using cobs_blocks_length_le [of "[]" S] by simp
  from assms obtain c0 post where obuf: "obuf = [] @ c0 # [] @ post"
    by (cases obuf) auto
  have room: "length (cobs_blocks [] (drop 0 S)) \<le> 1 + length ([]::u8 list) + length post"
    using bound assms(3,4) obuf by simp
  have "encode_loop S 0 (length ([]::u8 list) + 1 + length ([]::u8 list)) (length ([]::u8 list))
      (block_code []) obuf =
    (length ([]::u8 list) + length (cobs_blocks [] (drop 0 S)),
     [] @ cobs_blocks [] (drop 0 S) @
       drop (length (cobs_blocks [] (drop 0 S)) - 1 - length ([]::u8 list)) post)"
    by (rule encode_loop_blocks [OF obuf _ _ room]) simp_all
  then have "encode_loop S 0 1 0 1 obuf =
      (length (cobs_blocks [] S), cobs_blocks [] S @ drop (length (cobs_blocks [] S) - 1) post)"
    by simp
  with assms show ?thesis
    by (simp add: COBS_encode_def COBS_BLOCK_SIZE_def)
qed

subsection \<open>Claim C3\<close>

text \<open>
  C3.  For every byte sequence \<open>S\<close> of at most 254 bytes, encoding \<open>S\<close> succeeds, the \<open>n\<close>
  bytes the encoder wrote contain no zero byte, and decoding these bytes followed by
  the delimiter \<open>0x00\<close> returns \<open>length S\<close> decoded bytes that are \<open>S\<close> again, with
  \<open>consumed_length\<close> set to \<open>n + 1\<close>.  The two output buffers are as large as the
  functions themselves demand: the encoder is given \<open>encode_size\<close> bytes of
  \<open>encode_buffer\<close> with \<open>encode_size\<close> at least \<open>|S| + |S| div 254 + 1\<close> (its own
  \<open>max_encoded_length\<close>), the decoder as much.
\<close>

theorem cobs_round_trip:
  assumes "length S \<le> 254"
    and "length S + length S div 254 + 1 \<le> encode_size" and "encode_size \<le> length encode_buffer"
    and "length S + length S div 254 + 1 \<le> decode_size" and "decode_size \<le> length decode_buffer"
  shows "\<exists>n encoded decoded.
      COBS_encode (Some S) (Some encode_buffer) encode_size = (Inr n, Some encoded) \<and>
      0 \<notin> set (take n encoded) \<and>
      COBS_decode (Some (take n encoded @ [COBS_DELIMITER])) (Some decode_buffer) decode_size c =
        (Inr (length S), Some decoded, n + 1) \<and>
      take (length S) decoded = S"
proof (cases "S = []")
  case True
  have "frame_end_loop [COBS_DELIMITER] 0 = 0"
    by (subst frame_end_loop.simps) simp
  with True show ?thesis
    by (simp add: COBS_encode_def COBS_decode_def)
next
  case False
  let ?enc = "cobs_blocks [] S"
  let ?n = "length ?enc"
  from COBS_encode_blocks [OF False assms(1-3)] obtain encoded
    where enc: "COBS_encode (Some S) (Some encode_buffer) encode_size = (Inr ?n, Some encoded)"
      and tk: "take ?n encoded = ?enc"
    by blast
  have nz: "0 \<notin> set ?enc"
    by (rule cobs_blocks_nonzero) simp_all
  have bound: "?n \<le> length S + length S div 254 + 1"
    using cobs_blocks_length_le [of "[]" S] by simp
  have pos: "0 < ?n"
    by simp
  let ?inp = "?enc @ [COBS_DELIMITER]"
  have fe: "frame_end_loop ?inp 0 = ?n"
    by (rule frame_end_loop_delimiter [OF nz]) simp
  have seg: "take (?n - 0) (drop 0 ?inp) = cobs_blocks [] S"
    by simp
  have room: "0 + length ([]::u8 list) + length S \<le> length decode_buffer"
    using assms(4,5) by simp
  have loop: "decode_loop ?inp ?n 0 0 decode_buffer =
      (Inr (0 + length ([]::u8 list) + length S),
       take 0 decode_buffer @ [] @ S @ drop (0 + length ([]::u8 list) + length S) decode_buffer)"
    by (rule decode_loop_blocks [OF seg _ _ room]) simp_all
  have dec: "COBS_decode (Some ?inp) (Some decode_buffer) decode_size c =
      (Inr (length S), Some (S @ drop (length S) decode_buffer), ?n + 1)"
    using pos bound assms(4) loop by (simp add: COBS_decode_def fe)
  show ?thesis
    using enc tk nz dec by auto
qed

text \<open>The theorem at \<open>S = [0x11, 0x00, 0x22]\<close> with buffers of eight bytes.\<close>

theorem cobs_round_trip_witness:
  "\<exists>n encoded decoded.
      COBS_encode (Some [0x11, 0x00, 0x22]) (Some (replicate 8 0xAA)) 8 = (Inr n, Some encoded) \<and>
      0 \<notin> set (take n encoded) \<and>
      COBS_decode (Some (take n encoded @ [COBS_DELIMITER])) (Some (replicate 8 0x55)) 8 0 =
        (Inr (length [0x11, 0x00, 0x22 :: u8]), Some decoded, n + 1) \<and>
      take (length [0x11, 0x00, 0x22 :: u8]) decoded = [0x11, 0x00, 0x22]"
  using cobs_round_trip [of "[0x11, 0x00, 0x22]" 8 "replicate 8 0xAA" 8 "replicate 8 0x55" 0]
  by simp

section \<open>The flag \<open>awaiting_ack_\<close> is never raised\<close>

lemmas packet_type_defs =
  TRANSPORT_PACKET_TYPE_SYN_def TRANSPORT_PACKET_TYPE_SYN_ACK_def TRANSPORT_PACKET_TYPE_ACK_def
  TRANSPORT_PACKET_TYPE_FIN_def TRANSPORT_PACKET_TYPE_FIN_ACK_def TRANSPORT_PACKET_TYPE_DATA_def
  TRANSPORT_PACKET_TYPE_DATA_ACK_def TRANSPORT_PACKET_TYPE_DATA_NACK_def
  TRANSPORT_PACKET_TYPE_KEEPALIVE_def TRANSPORT_PACKET_TYPE_KEEPALIVE_ACK_def
  TRANSPORT_PACKET_TYPE_DATAGRAM_def TRANSPORT_PACKET_TYPE_MAX_def

lemma send_control_eq:
  "send_control down_send packet_type connection_id sequence_number t =
     (case down_layer t of
        None \<Rightarrow> None
      | Some d \<Rightarrow>
          (case down_send [packet_type, connection_id, sequence_number, 0] d of
             None \<Rightarrow> None
           | Some (result, d') \<Rightarrow>
               Some (t\<lparr>tx_buffer_' := [packet_type, connection_id, sequence_number, 0] @
                          drop 4 (tx_buffer_' t),
                        down_layer := Some d'\<rparr>)))"
  by (simp add: send_control_def down_layer_send_def TRANSPORT_HEADER_SIZE_def Let_def
      split: option.splits)

lemma u8_increment: "word_of_int ((uint (x :: u8) + 1) mod 256) = x + 1"
proof -
  have "take_bit LENGTH(8) ((uint x + 1) mod 256) = take_bit LENGTH(8) (uint x + 1)"
    by (simp add: take_bit_eq_mod)
  then have "(word_of_int ((uint x + 1) mod 256) :: u8) = word_of_int (uint x + 1)"
    by (simp only: word_of_int_eq_iff)
  then show ?thesis
    by simp
qed

lemma report_event_awaiting_ack [simp]:
  "awaiting_ack_' (report_event e t) = awaiting_ack_' t"
  by (simp add: report_event_def split: option.splits)

lemma send_control_awaiting_ack:
  "send_control down_send ty c s t = Some t' \<Longrightarrow> awaiting_ack_' t' = awaiting_ack_' t"
  by (auto simp: send_control_eq split: option.splits)

lemmas send_packet_defs =
  send_keepalive_def send_syn_def send_syn_ack_def send_ack_def send_fin_def send_fin_ack_def
  send_data_ack_def send_data_nack_def

lemma connect_awaiting_ack:
  "TransportLayer_connect down_send now t = Some (result, t') \<Longrightarrow>
   awaiting_ack_' t' = awaiting_ack_' t"
  by (auto simp: TransportLayer_connect_def send_syn_def dest!: send_control_awaiting_ack
      split: if_splits)

lemma listen_awaiting_ack:
  "TransportLayer_listen t = (result, t') \<Longrightarrow> awaiting_ack_' t' = awaiting_ack_' t"
  by (auto simp: TransportLayer_listen_def split: if_splits)

lemma disconnect_awaiting_ack:
  "TransportLayer_disconnect down_send t = Some (result, t') \<Longrightarrow>
   awaiting_ack_' t' = awaiting_ack_' t"
  by (auto simp: TransportLayer_disconnect_def send_fin_def dest!: send_control_awaiting_ack
      split: if_splits)

lemma send_awaiting_ack:
  "TransportLayer_send down_send now t data = Some (result, t') \<Longrightarrow>
   awaiting_ack_' t' = awaiting_ack_' t"
  by (auto simp: TransportLayer_send_def Let_def split: option.splits if_splits)

lemma send_datagram_awaiting_ack:
  "TransportLayer_send_datagram down_send t data = Some (result, t') \<Longrightarrow>
   awaiting_ack_' t' = awaiting_ack_' t"
  by (auto simp: TransportLayer_send_datagram_def Let_def split: option.splits if_splits)

lemma tick_awaiting_ack:
  "TransportLayer_tick down_send now t = Some t' \<Longrightarrow> awaiting_ack_' t' = awaiting_ack_' t"
  by (auto simp: TransportLayer_tick_def Let_def send_keepalive_def send_syn_def
      dest!: send_control_awaiting_ack split: TransportState.splits if_splits)

lemma handle_data_packet_awaiting_ack:
  "handle_data_packet down_send bytes t = Some (result, t') \<Longrightarrow>
   awaiting_ack_' t' = awaiting_ack_' t"
  by (auto simp: handle_data_packet_def Let_def send_data_ack_def send_data_nack_def
      dest!: send_control_awaiting_ack split: option.splits if_splits)

lemma handle_syn_packet_awaiting_ack:
  "handle_syn_packet down_send now c s t = Some t' \<Longrightarrow> awaiting_ack_' t' = awaiting_ack_' t"
  by (auto simp: handle_syn_packet_def Let_def send_syn_ack_def
      dest!: send_control_awaiting_ack split: if_splits)

lemma handle_syn_ack_packet_awaiting_ack:
  "handle_syn_ack_packet down_send now c s t = Some t' \<Longrightarrow> awaiting_ack_' t' = awaiting_ack_' t"
  by (auto simp: handle_syn_ack_packet_def send_ack_def
      dest!: send_control_awaiting_ack split: if_splits option.splits)

lemma handle_ack_packet_awaiting_ack [simp]:
  "awaiting_ack_' (handle_ack_packet now c s t) = awaiting_ack_' t"
  by (simp add: handle_ack_packet_def)

lemma handle_fin_packet_awaiting_ack:
  "handle_fin_packet down_send c t = Some t' \<Longrightarrow> awaiting_ack_' t' = awaiting_ack_' t"
  by (auto simp: handle_fin_packet_def send_ack_def send_fin_def
      dest!: send_control_awaiting_ack split: if_splits option.splits)

lemma handle_fin_ack_packet_awaiting_ack [simp]:
  "awaiting_ack_' (handle_fin_ack_packet c t) = awaiting_ack_' t"
  by (simp add: handle_fin_ack_packet_def)

lemma handle_data_ack_packet_awaiting_ack:
  "awaiting_ack_' (handle_data_ack_packet c s t) \<Longrightarrow> awaiting_ack_' t"
  by (simp add: handle_data_ack_packet_def split: if_splits)

lemma handle_data_nack_packet_awaiting_ack:
  "handle_data_nack_packet down_send c s t = Some t' \<Longrightarrow> awaiting_ack_' t' = awaiting_ack_' t"
  by (auto simp: handle_data_nack_packet_def down_layer_send_def
      split: if_splits option.splits)

lemma handle_keepalive_packet_awaiting_ack:
  "handle_keepalive_packet down_send c t = Some (result, t') \<Longrightarrow>
   awaiting_ack_' t' = awaiting_ack_' t"
  by (auto simp: handle_keepalive_packet_def dest!: send_control_awaiting_ack split: if_splits)

lemma handle_keepalive_ack_packet_awaiting_ack [simp]:
  "awaiting_ack_' (snd (handle_keepalive_ack_packet now c t)) = awaiting_ack_' t"
  by (simp add: handle_keepalive_ack_packet_def)

lemma handle_datagram_packet_awaiting_ack [simp]:
  "awaiting_ack_' (snd (handle_datagram_packet bytes t)) = awaiting_ack_' t"
  by (simp add: handle_datagram_packet_def Let_def split: option.splits)

lemma on_receive_awaiting_ack:
  assumes "TransportLayer_on_receive down_send now t data = Some (result, t')"
    and "awaiting_ack_' t'"
  shows "awaiting_ack_' t"
proof (cases data)
  case None
  with assms show ?thesis
    by (simp add: TransportLayer_on_receive_def)
next
  case (Some bytes)
  from assms(1) have
    "t' = t \<or>
     handle_syn_packet down_send now (bytes ! 1) (bytes ! 2) t = Some t' \<or>
     handle_syn_ack_packet down_send now (bytes ! 1) (bytes ! 2) t = Some t' \<or>
     t' = handle_ack_packet now (bytes ! 1) (bytes ! 2) t \<or>
     handle_fin_packet down_send (bytes ! 1) t = Some t' \<or>
     t' = handle_fin_ack_packet (bytes ! 1) t \<or>
     handle_data_packet down_send bytes t = Some (result, t') \<or>
     t' = handle_data_ack_packet (bytes ! 1) (bytes ! 2) t \<or>
     handle_data_nack_packet down_send (bytes ! 1) (bytes ! 2) t = Some t' \<or>
     handle_keepalive_packet down_send (bytes ! 1) t = Some (result, t') \<or>
     t' = snd (handle_keepalive_ack_packet now (bytes ! 1) t) \<or>
     t' = snd (handle_datagram_packet bytes t)"
    unfolding TransportLayer_on_receive_def Some Let_def
    by (auto split: if_splits)
  with assms(2) show ?thesis
    by (auto dest: handle_syn_packet_awaiting_ack handle_syn_ack_packet_awaiting_ack
        handle_fin_packet_awaiting_ack handle_data_packet_awaiting_ack
        handle_data_ack_packet_awaiting_ack handle_data_nack_packet_awaiting_ack
        handle_keepalive_packet_awaiting_ack)
qed

lemma awaiting_ack_never_set:
  "reachable down_send t \<Longrightarrow> \<not> awaiting_ack_' t"
proof (induction rule: reachable.induct)
  case (constructed t)
  show ?case by (simp add: TransportLayer_constructor_def)
next
  case (on_receive_called t now data result t')
  then show ?case by (blast dest: on_receive_awaiting_ack)
qed (auto simp: set_down_layer_def set_stack_manager_def TransportLayer_initialize_def
    TransportLayer_deinitialize_def TransportLayer_reset_def TransportLayer_set_timeout_def
    dest: connect_awaiting_ack listen_awaiting_ack disconnect_awaiting_ack send_awaiting_ack
    send_datagram_awaiting_ack tick_awaiting_ack)

section \<open>Retransmission and the stop-and-wait flag\<close>

lemma send_success_state:
  assumes "TransportLayer_send down_send now t data = Some (TRANSPORT_SUCCESS, t1)"
  shows "state_' t1 = TRANSPORT_STATE_CONNECTED"
  using assms
  by (auto simp: TransportLayer_send_def Let_def TRANSPORT_SUCCESS_def
      TRANSPORT_ERROR_INVALID_PARAMS_def TRANSPORT_ERROR_INVALID_STATE_def
      ERROR_RANGE_TRANSPORT_def split: option.splits if_splits)

lemma on_receive_data_nack:
  assumes "state_' t = TRANSPORT_STATE_CONNECTED"
  shows "TransportLayer_on_receive down_send now t
      (Some [TRANSPORT_PACKET_TYPE_DATA_NACK, connection_id, sequence_number, x]) =
    map_option (Pair 0) (handle_data_nack_packet down_send connection_id sequence_number t)"
  using assms by (simp add: TransportLayer_on_receive_def Let_def packet_type_defs)

lemma on_receive_data_ack:
  assumes "state_' t = TRANSPORT_STATE_CONNECTED"
  shows "TransportLayer_on_receive down_send now t
      (Some [TRANSPORT_PACKET_TYPE_DATA_ACK, connection_id, sequence_number, x]) =
    Some (0, handle_data_ack_packet connection_id sequence_number t)"
  using assms by (simp add: TransportLayer_on_receive_def Let_def packet_type_defs)

text \<open>
  C1. The claim: in the connected state, after a DATA packet has been sent, a DATA_NACK with the
  connection identifier of the connection and the sequence \<open>local_seq - 1\<close> makes the layer hand
  the saved packet to the link layer again.  The code does not: \<open>handle_data_nack_packet\<close>
  returns at once unless \<open>awaiting_ack_\<close> is set, and no reachable state has it set.  After every
  successful \<open>send\<close> from a reachable connected state, that DATA_NACK leaves the whole layer,
  the record of the link layer included, as it was.
\<close>

theorem data_nack_never_retransmits:
  assumes "reachable down_send t"
    and "state_' t = TRANSPORT_STATE_CONNECTED"
    and "TransportLayer_send down_send now t (Some payload) = Some (TRANSPORT_SUCCESS, t1)"
  shows "TransportLayer_on_receive down_send now' t1
      (Some [TRANSPORT_PACKET_TYPE_DATA_NACK, connection_id_' t1, sequence_number_' t1 - 1, 0]) =
    Some (0, t1)"
proof -
  have "reachable down_send t1"
    using assms(1,3) by (rule reachable.send_called)
  then have "\<not> awaiting_ack_' t1"
    by (rule awaiting_ack_never_set)
  moreover have "state_' t1 = TRANSPORT_STATE_CONNECTED"
    using assms(3) by (rule send_success_state)
  ultimately show ?thesis
    by (simp add: on_receive_data_nack handle_data_nack_packet_def)
qed

lemma some_the: "x \<noteq> None \<Longrightarrow> x = Some (fst (the x), snd (the x))"
  by auto

lemma reachable_client_ready: "reachable recording_send client_ready"
  unfolding client_ready_def
  by (intro reachable.initialized reachable.stack_manager_set reachable.down_layer_set
      reachable.constructed)

lemma reachable_client_connecting: "reachable recording_send client_connecting"
proof -
  have "TransportLayer_connect recording_send 0x42 client_ready \<noteq> None"
    by code_simp
  then have "TransportLayer_connect recording_send 0x42 client_ready =
      Some (fst (the (TransportLayer_connect recording_send 0x42 client_ready)), client_connecting)"
    unfolding client_connecting_def by (rule some_the)
  with reachable_client_ready show ?thesis
    by (rule reachable.connect_called)
qed

lemma reachable_client_connected: "reachable recording_send client_connected"
proof -
  let ?r = "TransportLayer_on_receive recording_send 0x50 client_connecting
      (Some [0x02, 0x01, 0x17, 0x00])"
  have "?r \<noteq> None"
    by code_simp
  then have "?r = Some (fst (the ?r), client_connected)"
    unfolding client_connected_def by (rule some_the)
  with reachable_client_connecting show ?thesis
    by (rule reachable.on_receive_called)
qed

lemma client_send_succeeds:
  "TransportLayer_send recording_send 0x60 client_connected (Some [0xDE, 0xAD, 0xBE, 0xEF]) =
     Some (TRANSPORT_SUCCESS, client_sent)"
  by code_simp

theorem data_nack_never_retransmits_witness:
  "TransportLayer_on_receive recording_send 0x70 client_sent (Some [0x08, 0x01, 0x42, 0x00]) =
     Some (0, client_sent) \<and>
   down_layer client_sent =
     Some [[0x01, 0x00, 0x42, 0x00], [0x03, 0x01, 0x17, 0x00],
           [0x06, 0x01, 0x42, 0x04, 0xDE, 0xAD, 0xBE, 0xEF]] \<and>
   take (unat (last_tx_length_' client_sent)) (last_tx_buffer_' client_sent) =
     [0x06, 0x01, 0x42, 0x04, 0xDE, 0xAD, 0xBE, 0xEF]"
proof -
  have connected: "state_' client_connected = TRANSPORT_STATE_CONNECTED"
    by code_simp
  have fields: "connection_id_' client_sent = 0x01" "sequence_number_' client_sent - 1 = 0x42"
    by code_simp+
  have "TransportLayer_on_receive recording_send 0x70 client_sent
      (Some [TRANSPORT_PACKET_TYPE_DATA_NACK, connection_id_' client_sent,
             sequence_number_' client_sent - 1, 0]) = Some (0, client_sent)"
    using reachable_client_connected connected client_send_succeeds
    by (rule data_nack_never_retransmits)
  then have "TransportLayer_on_receive recording_send 0x70 client_sent
      (Some [0x08, 0x01, 0x42, 0x00]) = Some (0, client_sent)"
    by (simp add: fields TRANSPORT_PACKET_TYPE_DATA_NACK_def)
  moreover have "down_layer client_sent =
     Some [[0x01, 0x00, 0x42, 0x00], [0x03, 0x01, 0x17, 0x00],
           [0x06, 0x01, 0x42, 0x04, 0xDE, 0xAD, 0xBE, 0xEF]]"
    by code_simp
  moreover have "take (unat (last_tx_length_' client_sent)) (last_tx_buffer_' client_sent) =
     [0x06, 0x01, 0x42, 0x04, 0xDE, 0xAD, 0xBE, 0xEF]"
    by code_simp
  ultimately show ?thesis
    by simp
qed

text \<open>
  C2. The claim: a successful \<open>send\<close> in the connected state sets \<open>awaiting_ack_\<close>.  The code sets
  \<open>waiting_response_\<close> instead: after every successful \<open>send\<close> from a reachable connected state
  \<open>awaiting_ack_\<close> is false and \<open>waiting_response_\<close> is true.
\<close>

theorem send_leaves_awaiting_ack_false:
  assumes "reachable down_send t"
    and "state_' t = TRANSPORT_STATE_CONNECTED"
    and "TransportLayer_send down_send now t (Some payload) = Some (TRANSPORT_SUCCESS, t1)"
  shows "\<not> awaiting_ack_' t1 \<and> waiting_response_' t1"
proof -
  have "reachable down_send t1"
    using assms(1,3) by (rule reachable.send_called)
  then have "\<not> awaiting_ack_' t1"
    by (rule awaiting_ack_never_set)
  moreover have "waiting_response_' t1"
    using assms(3)
    by (auto simp: TransportLayer_send_def Let_def TRANSPORT_SUCCESS_def
        TRANSPORT_ERROR_INVALID_PARAMS_def TRANSPORT_ERROR_INVALID_STATE_def
        ERROR_RANGE_TRANSPORT_def split: option.splits if_splits)
  ultimately show ?thesis
    by simp
qed

theorem send_leaves_awaiting_ack_false_witness:
  "TransportLayer_send recording_send 0x60 client_connected (Some [0xDE, 0xAD, 0xBE, 0xEF]) =
     Some (TRANSPORT_SUCCESS, client_sent) \<and>
   \<not> awaiting_ack_' client_sent \<and> waiting_response_' client_sent"
proof -
  have connected: "state_' client_connected = TRANSPORT_STATE_CONNECTED"
    by code_simp
  show ?thesis
    using send_leaves_awaiting_ack_false [OF reachable_client_connected connected
        client_send_succeeds] client_send_succeeds
    by simp
qed

section \<open>Acknowledgements and the datagram limit\<close>

text \<open>
  \<open>handle_data_ack_packet\<close> tests \<open>sequence_number != sequence_number_ - 1\<close> in \<open>int\<close>.  With the
  flag \<open>awaiting_ack_\<close> set it accepts the sequence before the local one for every local
  sequence number but 0, where it refuses 255.  Through \<open>on_receive\<close> neither is seen: the flag
  is never set, and in every reachable connected state a DATA_ACK leaves the layer as it was.
\<close>

lemma handle_data_ack_packet_accepts:
  assumes "awaiting_ack_' t" and "sequence_number_' t \<noteq> 0"
  shows "handle_data_ack_packet (connection_id_' t) (sequence_number_' t - 1) t =
    t\<lparr>awaiting_ack_' := False, retry_count_' := 0\<rparr>"
proof -
  have "uint (sequence_number_' t) \<noteq> 0"
    using assms(2) by (simp add: uint_0_iff)
  moreover have "0 \<le> uint (sequence_number_' t)"
    by simp
  ultimately have "1 \<le> uint (sequence_number_' t)"
    by linarith
  then have "uint (sequence_number_' t - 1) = uint (sequence_number_' t) - 1"
    by (simp add: uint_sub_if')
  with assms show ?thesis
    by (simp add: handle_data_ack_packet_def)
qed

lemma handle_data_ack_packet_refuses_at_zero:
  assumes "sequence_number_' t = 0"
  shows "handle_data_ack_packet connection_id 0xFF t = t"
  using assms by (simp add: handle_data_ack_packet_def)

lemma data_ack_in_reachable_state:
  assumes "reachable down_send t" and "state_' t = TRANSPORT_STATE_CONNECTED"
  shows "TransportLayer_on_receive down_send now t
      (Some [TRANSPORT_PACKET_TYPE_DATA_ACK, connection_id, sequence_number, x]) = Some (0, t)"
proof -
  have "\<not> awaiting_ack_' t"
    using assms(1) by (rule awaiting_ack_never_set)
  with assms(2) show ?thesis
    by (simp add: on_receive_data_ack handle_data_ack_packet_def)
qed

text \<open>
  C8. The claim: \<open>send_datagram\<close> accepts every payload of at most 248 bytes and hands the packet
  \<open>0x0B | LENGTH | PAYLOAD\<close> to the link layer.  The code compares the length with
  \<open>TRANSPORT_MAX_PAYLOAD_SIZE\<close>, which is 246: with a link layer below, a payload of more than
  246 bytes is refused with \<open>TRANSPORT_ERROR_INVALID_PARAMS\<close> and the layer is unchanged; a shorter
  one is handed down as the claim says.
\<close>

theorem send_datagram_payload_limit:
  assumes "down_layer t = Some d"
  shows "TransportLayer_send_datagram down_send t (Some bytes) =
     (if 246 < length bytes then Some (TRANSPORT_ERROR_INVALID_PARAMS, t)
      else
        (case down_send ([TRANSPORT_PACKET_TYPE_DATAGRAM, of_nat (length bytes)] @ bytes) d of
           None \<Rightarrow> None
         | Some (result, d') \<Rightarrow>
             Some (if result < 0 then TRANSPORT_ERROR_SEND_FAILED else result,
                   t\<lparr>tx_buffer_' := [TRANSPORT_PACKET_TYPE_DATAGRAM, of_nat (length bytes)] @
                          bytes @ drop (2 + length bytes) (tx_buffer_' t),
                     down_layer := Some d'\<rparr>)))"
  using assms
  by (simp add: TransportLayer_send_datagram_def Let_def TRANSPORT_MAX_PAYLOAD_SIZE_def
      TRANSPORT_MAX_PACKET_SIZE_def LINK_MAX_PAYLOAD_SIZE_def COBS_MAX_BLOCK_SIZE_def
      LINK_HEADER_SIZE_def LINK_CRC_SIZE_def TRANSPORT_HEADER_SIZE_def split: option.splits)

theorem send_datagram_payload_limit_witness:
  "TransportLayer_send_datagram recording_send client_ready (Some (replicate 247 0x55)) =
     Some (TRANSPORT_ERROR_INVALID_PARAMS, client_ready) \<and>
   TransportLayer_send_datagram recording_send client_ready (Some (replicate 248 0x55)) =
     Some (TRANSPORT_ERROR_INVALID_PARAMS, client_ready) \<and>
   TransportLayer_send_datagram recording_send client_ready (Some [0x01, 0x02]) =
     Some (0, client_ready\<lparr>tx_buffer_' := [0x0B, 0x02, 0x01, 0x02] @ replicate 246 0,
                           down_layer := Some [[0x0B, 0x02, 0x01, 0x02]]\<rparr>)"
proof -
  have d: "down_layer client_ready = Some []"
    by code_simp
  have b: "tx_buffer_' client_ready = replicate 250 0"
    by code_simp
  show ?thesis
    using send_datagram_payload_limit
        [where down_send = recording_send and bytes = "replicate 247 0x55", OF d]
      send_datagram_payload_limit
        [where down_send = recording_send and bytes = "replicate 248 0x55", OF d]
      send_datagram_payload_limit
        [where down_send = recording_send and bytes = "[0x01, 0x02]", OF d]
    by (simp add: recording_send_def TRANSPORT_PACKET_TYPE_DATAGRAM_def b)
qed

section \<open>Received DATA packets and the keepalive tick\<close>

text \<open>
  C4. In the connected state, a DATA packet with the connection identifier of the connection and
  the sequence \<open>peer_sequence_number_\<close> is delivered upward, acknowledged with a DATA_ACK, and
  \<open>peer_sequence_number_\<close> becomes its successor modulo 256; with any other sequence a DATA_NACK
  carrying that sequence is sent, nothing is delivered, and \<open>peer_sequence_number_\<close> stays.
\<close>

theorem data_packet_sequencing:
  assumes "state_' t = TRANSPORT_STATE_CONNECTED"
    and "4 \<le> length bytes"
    and "bytes ! 0 = TRANSPORT_PACKET_TYPE_DATA"
    and "bytes ! 1 = connection_id_' t"
    and "down_layer t = Some d"
    and "manager_' t = Some calls"
  shows "TransportLayer_on_receive down_send now t (Some bytes) =
     (if bytes ! 2 = peer_sequence_number_' t then
        (case down_send [TRANSPORT_PACKET_TYPE_DATA_ACK, connection_id_' t, bytes ! 2, 0] d of
           None \<Rightarrow> None
         | Some (result, d') \<Rightarrow>
             Some (0, t\<lparr>manager_' := Some (calls @ [manager_on_receive (drop 4 bytes)]),
                        tx_buffer_' := [TRANSPORT_PACKET_TYPE_DATA_ACK, connection_id_' t,
                                        bytes ! 2, 0] @ drop 4 (tx_buffer_' t),
                        down_layer := Some d',
                        peer_sequence_number_' :=
                          of_nat ((unat (peer_sequence_number_' t) + 1) mod 256)\<rparr>))
      else
        (case down_send [TRANSPORT_PACKET_TYPE_DATA_NACK, connection_id_' t, bytes ! 2, 0] d of
           None \<Rightarrow> None
         | Some (result, d') \<Rightarrow>
             Some (- 1, t\<lparr>tx_buffer_' := [TRANSPORT_PACKET_TYPE_DATA_NACK, connection_id_' t,
                                          bytes ! 2, 0] @ drop 4 (tx_buffer_' t),
                          down_layer := Some d'\<rparr>)))"
proof -
  from assms(2) have len: "bytes \<noteq> []" "\<not> length bytes < 4"
    by auto
  have dispatch: "TransportLayer_on_receive down_send now t (Some bytes) =
      handle_data_packet down_send bytes t"
    using assms(1) len by (simp add: TransportLayer_on_receive_def Let_def assms(3) packet_type_defs)
  have inc: "(of_nat ((unat (peer_sequence_number_' t) + 1) mod 256) :: u8) =
      peer_sequence_number_' t + 1"
    unfolding word_unat_eq_iff by (simp add: unat_of_nat unat_word_ariths)
  show ?thesis
    unfolding dispatch inc
    using assms(4,5,6)
    by (simp add: handle_data_packet_def Let_def send_data_nack_def send_data_ack_def
        send_control_eq u8_increment TRANSPORT_HEADER_SIZE_def split: option.splits)
qed

lemma client_connected_fields:
  "state_' client_connected = TRANSPORT_STATE_CONNECTED"
  "connection_id_' client_connected = 0x01"
  "peer_sequence_number_' client_connected = 0x17"
  "down_layer client_connected = Some [[0x01, 0x00, 0x42, 0x00], [0x03, 0x01, 0x17, 0x00]]"
  "manager_' client_connected = Some [manager_on_layer_event TRANSPORT_LAYER_EVENT_CONNECTED]"
  "keepalive_interval_' client_connected = 1000"
  "last_keepalive_ack_time_' client_connected = 0x50"
  by code_simp+

theorem data_packet_sequencing_witness:
  "TransportLayer_on_receive recording_send 0x70 client_connected
      (Some [0x06, 0x01, 0x17, 0x02, 0xAA, 0xBB]) =
     Some (0, client_connected
       \<lparr>manager_' := Some [manager_on_layer_event TRANSPORT_LAYER_EVENT_CONNECTED,
                           manager_on_receive [0xAA, 0xBB]],
        tx_buffer_' := [0x07, 0x01, 0x17, 0x00] @ drop 4 (tx_buffer_' client_connected),
        down_layer := Some [[0x01, 0x00, 0x42, 0x00], [0x03, 0x01, 0x17, 0x00],
                            [0x07, 0x01, 0x17, 0x00]],
        peer_sequence_number_' := 0x18\<rparr>) \<and>
   TransportLayer_on_receive recording_send 0x70 client_connected
      (Some [0x06, 0x01, 0x19, 0x02, 0xAA, 0xBB]) =
     Some (- 1, client_connected
       \<lparr>tx_buffer_' := [0x08, 0x01, 0x19, 0x00] @ drop 4 (tx_buffer_' client_connected),
        down_layer := Some [[0x01, 0x00, 0x42, 0x00], [0x03, 0x01, 0x17, 0x00],
                            [0x08, 0x01, 0x19, 0x00]]\<rparr>)"
proof -
  note f = client_connected_fields
  have a: "TransportLayer_on_receive recording_send 0x70 client_connected
      (Some [0x06, 0x01, 0x17, 0x02, 0xAA, 0xBB]) =
     Some (0, client_connected
       \<lparr>manager_' := Some [manager_on_layer_event TRANSPORT_LAYER_EVENT_CONNECTED,
                           manager_on_receive [0xAA, 0xBB]],
        tx_buffer_' := [0x07, 0x01, 0x17, 0x00] @ drop 4 (tx_buffer_' client_connected),
        down_layer := Some [[0x01, 0x00, 0x42, 0x00], [0x03, 0x01, 0x17, 0x00],
                            [0x07, 0x01, 0x17, 0x00]],
        peer_sequence_number_' := 0x18\<rparr>)"
    using data_packet_sequencing [where down_send = recording_send and now = "0x70"
        and bytes = "[0x06, 0x01, 0x17, 0x02, 0xAA, 0xBB]", OF f(1) _ _ _ f(4) f(5)]
    by (simp add: f recording_send_def packet_type_defs)
  have b: "TransportLayer_on_receive recording_send 0x70 client_connected
      (Some [0x06, 0x01, 0x19, 0x02, 0xAA, 0xBB]) =
     Some (- 1, client_connected
       \<lparr>tx_buffer_' := [0x08, 0x01, 0x19, 0x00] @ drop 4 (tx_buffer_' client_connected),
        down_layer := Some [[0x01, 0x00, 0x42, 0x00], [0x03, 0x01, 0x17, 0x00],
                            [0x08, 0x01, 0x19, 0x00]]\<rparr>)"
    using data_packet_sequencing [where down_send = recording_send and now = "0x70"
        and bytes = "[0x06, 0x01, 0x19, 0x02, 0xAA, 0xBB]", OF f(1) _ _ _ f(4) f(5)]
    by (simp add: f recording_send_def packet_type_defs)
  from a b show ?thesis
    by (rule conjI)
qed



lemma reachable_client_long_keepalive: "reachable recording_send client_long_keepalive"
  unfolding client_long_keepalive_def
  using reachable_client_connected by (rule reachable.timeout_set)




section \<open>The connection identifier check\<close>

lemma not_type_max_le_syn [simp]: "\<not> (12 :: u8) \<le> 1"
  by (simp add: word_le_nat_alt)

text \<open>
  C5, as the claim is written, fails: the connecting client has the connection identifier 0,
  and the SYN_ACK with the identifier 1 is not dropped but completes the handshake.
\<close>

theorem connection_id_check_counterexample:
  "state_' client_connecting = TRANSPORT_STATE_CONNECTING \<and>
   connection_id_' client_connecting = 0x00 \<and>
   TransportLayer_on_receive recording_send 0x50 client_connecting
     (Some [0x02, 0x01, 0x17, 0x00]) = Some (0, client_connected) \<and>
   state_' client_connected = TRANSPORT_STATE_CONNECTED \<and>
   connection_id_' client_connected = 0x01 \<and>
   peer_sequence_number_' client_connecting = 0x00 \<and>
   peer_sequence_number_' client_connected = 0x17"
  by code_simp

text \<open>
  A SYN with a connection identifier other than 0, received in the connected state, is refused
  only after its sequence has been stored in \<open>peer_sequence_number_\<close>.
\<close>

lemma syn_overwrites_peer_sequence:
  assumes "state_' t = TRANSPORT_STATE_CONNECTED"
    and "connection_id \<noteq> TRANSPORT_CONNECTION_ID_INVALID"
  shows "TransportLayer_on_receive down_send now t
      (Some [TRANSPORT_PACKET_TYPE_SYN, connection_id, sequence_number, 0]) =
    Some (0, t\<lparr>peer_sequence_number_' := sequence_number\<rparr>)"
  using assms
  by (simp add: TransportLayer_on_receive_def Let_def packet_type_defs handle_syn_packet_def)

text \<open>
  C5, amended.  For a packet of at least four bytes whose connection identifier differs from
  \<open>connection_id_\<close>: an ACK, FIN, FIN_ACK, DATA, DATA_ACK, DATA_NACK, KEEPALIVE or KEEPALIVE_ACK
  leaves the layer unchanged; a SYN_ACK in the connecting state is accepted and its identifier
  adopted; a SYN with the identifier 0 is accepted in the listening state and, in the connected
  state, resets the connection (DISCONNECTED and the ERROR event); a SYN in any state other than
  listening and connected, and a SYN_ACK in any state other than connecting, are refused and
  leave the layer unchanged.
\<close>

theorem connection_id_check:
  assumes "4 \<le> length bytes"
    and "bytes ! 1 \<noteq> connection_id_' t"
  shows "(bytes ! 0 \<in> {TRANSPORT_PACKET_TYPE_ACK, TRANSPORT_PACKET_TYPE_FIN,
            TRANSPORT_PACKET_TYPE_FIN_ACK, TRANSPORT_PACKET_TYPE_DATA,
            TRANSPORT_PACKET_TYPE_DATA_ACK, TRANSPORT_PACKET_TYPE_DATA_NACK,
            TRANSPORT_PACKET_TYPE_KEEPALIVE, TRANSPORT_PACKET_TYPE_KEEPALIVE_ACK} \<longrightarrow>
          (\<exists>result. TransportLayer_on_receive down_send now t (Some bytes) = Some (result, t))) \<and>
         (bytes ! 0 = TRANSPORT_PACKET_TYPE_SYN_ACK \<and> state_' t = TRANSPORT_STATE_CONNECTING \<and>
          down_layer t = Some d \<and>
          down_send [TRANSPORT_PACKET_TYPE_ACK, bytes ! 1, bytes ! 2, 0] d = Some (r, d') \<longrightarrow>
          TransportLayer_on_receive down_send now t (Some bytes) =
            Some (0, report_event TRANSPORT_LAYER_EVENT_CONNECTED
               (t\<lparr>connection_id_' := bytes ! 1, peer_sequence_number_' := bytes ! 2,
                  tx_buffer_' := [TRANSPORT_PACKET_TYPE_ACK, bytes ! 1, bytes ! 2, 0] @
                                 drop 4 (tx_buffer_' t),
                  down_layer := Some d', state_' := TRANSPORT_STATE_CONNECTED,
                  waiting_response_' := False, connect_retries_' := 0,
                  last_keepalive_ack_time_' := now\<rparr>))) \<and>
         (bytes ! 0 = TRANSPORT_PACKET_TYPE_SYN \<and> bytes ! 1 = TRANSPORT_CONNECTION_ID_INVALID \<and>
          state_' t = TRANSPORT_STATE_CONNECTED \<longrightarrow>
          TransportLayer_on_receive down_send now t (Some bytes) =
            Some (0, report_event TRANSPORT_LAYER_EVENT_ERROR
               (t\<lparr>peer_sequence_number_' := bytes ! 2,
                  state_' := TRANSPORT_STATE_DISCONNECTED\<rparr>))) \<and>
         (bytes ! 0 = TRANSPORT_PACKET_TYPE_SYN \<and> bytes ! 1 = TRANSPORT_CONNECTION_ID_INVALID \<and>
          state_' t = TRANSPORT_STATE_LISTENING \<longrightarrow>
          TransportLayer_on_receive down_send now t (Some bytes) =
            map_option (Pair 0)
              (send_syn_ack down_send
                 (t\<lparr>peer_sequence_number_' := bytes ! 2,
                    state_' := TRANSPORT_STATE_CONNECTING, waiting_response_' := True,
                    sequence_number_' := ucast (now AND 0xFF)\<rparr>))) \<and>
         (bytes ! 0 = TRANSPORT_PACKET_TYPE_SYN \<and> state_' t \<noteq> TRANSPORT_STATE_LISTENING \<and>
          state_' t \<noteq> TRANSPORT_STATE_CONNECTED \<or>
          bytes ! 0 = TRANSPORT_PACKET_TYPE_SYN_ACK \<and> state_' t \<noteq> TRANSPORT_STATE_CONNECTING \<longrightarrow>
          TransportLayer_on_receive down_send now t (Some bytes) = Some (- 1, t))"
proof -
  from assms(1) have len: "bytes \<noteq> []" "\<not> length bytes < 4"
    by auto
  have a: "\<exists>result. TransportLayer_on_receive down_send now t (Some bytes) = Some (result, t)"
    if "bytes ! 0 \<in> {TRANSPORT_PACKET_TYPE_ACK, TRANSPORT_PACKET_TYPE_FIN,
            TRANSPORT_PACKET_TYPE_FIN_ACK, TRANSPORT_PACKET_TYPE_DATA,
            TRANSPORT_PACKET_TYPE_DATA_ACK, TRANSPORT_PACKET_TYPE_DATA_NACK,
            TRANSPORT_PACKET_TYPE_KEEPALIVE, TRANSPORT_PACKET_TYPE_KEEPALIVE_ACK}"
    using that len assms(2)
    by (auto simp: TransportLayer_on_receive_def Let_def packet_type_defs handle_ack_packet_def
        handle_fin_packet_def handle_fin_ack_packet_def handle_data_packet_def
        handle_data_ack_packet_def handle_data_nack_packet_def handle_keepalive_packet_def
        handle_keepalive_ack_packet_def)
  have b: "TransportLayer_on_receive down_send now t (Some bytes) =
            Some (0, report_event TRANSPORT_LAYER_EVENT_CONNECTED
               (t\<lparr>connection_id_' := bytes ! 1, peer_sequence_number_' := bytes ! 2,
                  tx_buffer_' := [TRANSPORT_PACKET_TYPE_ACK, bytes ! 1, bytes ! 2, 0] @
                                 drop 4 (tx_buffer_' t),
                  down_layer := Some d', state_' := TRANSPORT_STATE_CONNECTED,
                  waiting_response_' := False, connect_retries_' := 0,
                  last_keepalive_ack_time_' := now\<rparr>))"
    if "bytes ! 0 = TRANSPORT_PACKET_TYPE_SYN_ACK" "state_' t = TRANSPORT_STATE_CONNECTING"
      "down_layer t = Some d"
      "down_send [TRANSPORT_PACKET_TYPE_ACK, bytes ! 1, bytes ! 2, 0] d = Some (r, d')"
    using that len
    by (simp add: TransportLayer_on_receive_def Let_def packet_type_defs
        handle_syn_ack_packet_def send_ack_def send_control_eq)
  have c: "TransportLayer_on_receive down_send now t (Some bytes) =
            Some (0, report_event TRANSPORT_LAYER_EVENT_ERROR
               (t\<lparr>peer_sequence_number_' := bytes ! 2,
                  state_' := TRANSPORT_STATE_DISCONNECTED\<rparr>))"
    if "bytes ! 0 = TRANSPORT_PACKET_TYPE_SYN" "bytes ! 1 = TRANSPORT_CONNECTION_ID_INVALID"
      "state_' t = TRANSPORT_STATE_CONNECTED"
    using that len
    by (simp add: TransportLayer_on_receive_def Let_def packet_type_defs handle_syn_packet_def)
  have d: "TransportLayer_on_receive down_send now t (Some bytes) =
            map_option (Pair 0)
              (send_syn_ack down_send
                 (t\<lparr>peer_sequence_number_' := bytes ! 2,
                    state_' := TRANSPORT_STATE_CONNECTING, waiting_response_' := True,
                    sequence_number_' := ucast (now AND 0xFF)\<rparr>))"
    if "bytes ! 0 = TRANSPORT_PACKET_TYPE_SYN" "bytes ! 1 = TRANSPORT_CONNECTION_ID_INVALID"
      "state_' t = TRANSPORT_STATE_LISTENING"
    using that len
    by (simp add: TransportLayer_on_receive_def Let_def packet_type_defs handle_syn_packet_def)
  have e: "TransportLayer_on_receive down_send now t (Some bytes) = Some (- 1, t)"
    if "bytes ! 0 = TRANSPORT_PACKET_TYPE_SYN \<and> state_' t \<noteq> TRANSPORT_STATE_LISTENING \<and>
          state_' t \<noteq> TRANSPORT_STATE_CONNECTED \<or>
        bytes ! 0 = TRANSPORT_PACKET_TYPE_SYN_ACK \<and> state_' t \<noteq> TRANSPORT_STATE_CONNECTING"
    using that len
    by (auto simp: TransportLayer_on_receive_def Let_def packet_type_defs)
  show ?thesis
    using a b c d e by (intro conjI impI) blast+
qed

text \<open>
  The connected client, whose connection identifier is 1: a DATA packet with the identifier 2 is
  dropped, a SYN with the identifier 0 resets the connection, a SYN_ACK with the identifier 9 is
  refused.
\<close>

theorem connection_id_check_witness:
  "(\<exists>result. TransportLayer_on_receive recording_send 0x70 client_connected
      (Some [0x06, 0x02, 0x17, 0x01, 0xAA]) = Some (result, client_connected)) \<and>
   TransportLayer_on_receive recording_send 0x70 client_connected
      (Some [0x01, 0x00, 0x33, 0x00]) =
     Some (0, report_event TRANSPORT_LAYER_EVENT_ERROR
        (client_connected\<lparr>peer_sequence_number_' := 0x33,
           state_' := TRANSPORT_STATE_DISCONNECTED\<rparr>)) \<and>
   TransportLayer_on_receive recording_send 0x70 client_connected
      (Some [0x02, 0x09, 0x33, 0x00]) = Some (- 1, client_connected)"
proof -
  have f: "state_' client_connected = TRANSPORT_STATE_CONNECTED"
    "connection_id_' client_connected = 0x01"
    using client_connected_fields by simp_all
  show ?thesis
    using connection_id_check [where t = client_connected and down_send = recording_send
        and now = "0x70" and bytes = "[0x06, 0x02, 0x17, 0x01, 0xAA]"]
      connection_id_check [where t = client_connected and down_send = recording_send
        and now = "0x70" and bytes = "[0x01, 0x00, 0x33, 0x00]"]
      connection_id_check [where t = client_connected and down_send = recording_send
        and now = "0x70" and bytes = "[0x02, 0x09, 0x33, 0x00]"]
    by (simp add: f packet_type_defs TRANSPORT_CONNECTION_ID_INVALID_def)
qed

section \<open>The link layer\<close>

lemma link_report_event_state [simp]:
  "link_state_' (link_report_event e l) = link_state_' l"
  by (simp add: link_report_event_def split: option.splits)

text \<open>
  With a lower layer, a payload of fewer than 250 bytes and \<open>encoded_buffer_\<close> at its declared
  size, \<open>send\<close> returns: the frame has at most 253 bytes, its encoding at most 254, and
  the delimiter is written inside the array.
\<close>

lemma link_send_returns:
  assumes "link_down_layer l"
    and "length bytes < LINK_MAX_PAYLOAD_SIZE"
    and "length (encoded_buffer_' l) = COBS_MAX_ENCODED_SIZE"
  shows "\<exists>result l'. LinkLayer_send crc16 l (Some bytes) = Some (result, l')"
proof -
  define frame where "frame = [LINK_FRAME_TYPE_DATA, of_nat (length bytes)] @ bytes @
    [ucast (crc16 ([LINK_FRAME_TYPE_DATA, of_nat (length bytes)] @ bytes) AND 0xFF),
     ucast (drop_bit 8 (crc16 ([LINK_FRAME_TYPE_DATA, of_nat (length bytes)] @ bytes)) AND 0xFF)]"
  have len: "length bytes < 250"
    using assms(2)
    by (simp add: LINK_MAX_PAYLOAD_SIZE_def COBS_MAX_BLOCK_SIZE_def LINK_HEADER_SIZE_def
        LINK_CRC_SIZE_def)
  have fl: "length frame = length bytes + 4" "frame \<noteq> []"
    by (simp_all add: frame_def)
  define n where "n = length (cobs_blocks [] frame)"
  have n: "n \<le> 254"
    using cobs_blocks_length_le [of "[]" frame] fl len by (simp add: n_def)
  have enc: "\<exists>obuf'. COBS_encode (Some frame) (Some obuf) 254 = (Inr n, Some obuf')"
    if "length obuf = 257" for obuf
    using COBS_encode_blocks [of frame 254 obuf] fl len that by (auto simp: n_def)
  have un: "unat (of_nat n :: u16) = n"
    using n by (simp add: unat_of_nat)
  have nonneg: "\<not> uint w < 0" for w :: u16
    by simp
  let ?l1 = "if link_state_' l = LINK_STATE_ERROR then LinkLayer_reset l else l"
  have eb: "length (encoded_buffer_' ?l1) = 257"
    using assms(3)
    by (simp add: LinkLayer_reset_def link_report_event_def COBS_MAX_ENCODED_SIZE_def
        split: option.splits)
  from enc [OF eb] obtain obuf' where
    e: "COBS_encode (Some frame) (Some (encoded_buffer_' ?l1)) 254 = (Inr n, Some obuf')"
    by blast
  show ?thesis
    using assms(1) len e un n
    unfolding LinkLayer_send_def Let_def
    by (simp add: frame_def nonneg LINK_MAX_PAYLOAD_SIZE_def COBS_MAX_BLOCK_SIZE_def
        LINK_HEADER_SIZE_def LINK_CRC_SIZE_def LINK_MAX_FRAME_SIZE_def COBS_MAX_ENCODED_SIZE_def
        buffer_after_def)
qed

text \<open>
  C10. When \<open>send\<close> is called with a payload and a lower layer while the link layer is in the
  error state, and returns, the state is READY afterwards, also when the result is
  \<open>LINK_ERROR_BUFFER_FULL\<close>: then the egress buffer is as before and the events READY and ERROR
  have been reported, in that order.
\<close>

theorem link_send_clears_error:
  assumes "link_state_' l = LINK_STATE_ERROR"
    and "link_down_layer l"
    and "length bytes \<le> LINK_MAX_PAYLOAD_SIZE"
    and "LinkLayer_send crc16 l (Some bytes) = Some (result, l')"
  shows "link_state_' l' = LINK_STATE_READY \<and>
         (result = LINK_ERROR_BUFFER_FULL \<or> result = LINK_SUCCESS) \<and>
         (result = LINK_ERROR_BUFFER_FULL \<longrightarrow>
            outgoing_buffer_' l' = outgoing_buffer_' l \<and>
            link_manager_' l' =
              map_option (\<lambda>events. events @ [LINK_LAYER_EVENT_READY, LINK_LAYER_EVENT_ERROR])
                (link_manager_' l))"
proof -
  have nonneg: "\<not> uint w < 0" for w :: u16
    by simp
  show ?thesis
    using assms
    by (auto simp: LinkLayer_send_def Let_def LinkLayer_reset_def link_report_event_def nonneg
        LINK_ERROR_BUFFER_FULL_def LINK_SUCCESS_def LAYER_SUCCESS_def ERROR_RANGE_LINK_def
        split: prod.splits option.splits if_splits)
qed

theorem link_send_clears_error_witness:
  "\<exists>l'. LinkLayer_send CRC16_calculate link_full_in_error (Some [0x0B, 0x02, 0x01, 0x02]) =
          Some (LINK_ERROR_BUFFER_FULL, l') \<and>
        link_state_' link_full_in_error = LINK_STATE_ERROR \<and>
        link_state_' l' = LINK_STATE_READY \<and>
        outgoing_buffer_' l' = outgoing_buffer_' link_full_in_error \<and>
        link_manager_' l' = Some [LINK_LAYER_EVENT_READY, LINK_LAYER_EVENT_ERROR]"
proof -
  let ?r = "LinkLayer_send CRC16_calculate link_full_in_error (Some [0x0B, 0x02, 0x01, 0x02])"
  have "map_option fst ?r = Some LINK_ERROR_BUFFER_FULL"
    by code_simp
  then obtain l' where r: "?r = Some (LINK_ERROR_BUFFER_FULL, l')"
    by auto
  have s: "link_state_' link_full_in_error = LINK_STATE_ERROR" "link_down_layer link_full_in_error"
    "length [0x0B, 0x02, 0x01, 0x02 :: u8] \<le> LINK_MAX_PAYLOAD_SIZE"
    "link_manager_' link_full_in_error = Some []"
    by code_simp+
  from link_send_clears_error [OF s(1-3) r] r s show ?thesis
    by simp
qed

text \<open>
  A payload of exactly 250 bytes passes the length test, but its frame of 254 bytes needs 256
  bytes of output where \<open>COBS::encode\<close> is offered 254: the error code, stored in the
  \<open>uint16_t\<close> member, is 65529, and the delimiter is written outside \<open>encoded_buffer_\<close>.
\<close>

lemma link_send_max_payload_undefined:
  assumes "link_down_layer l" and "length bytes = 250"
  shows "LinkLayer_send crc16 l (Some bytes) = None"
proof -
  have "unat (word_of_int (- 7) :: u16) = 65529"
    by simp
  then show ?thesis
    using assms
    by (simp add: LinkLayer_send_def Let_def COBS_encode_def LINK_MAX_PAYLOAD_SIZE_def
        COBS_MAX_BLOCK_SIZE_def LINK_HEADER_SIZE_def LINK_CRC_SIZE_def LINK_MIN_FRAME_SIZE_def
        LINK_MAX_FRAME_SIZE_def COBS_BLOCK_SIZE_def COBS_MAX_ENCODED_SIZE_def buffer_after_def)
qed

lemma decode_loop_not_incomplete:
  "fst (decode_loop inp frame_end read_index write_index out) \<noteq> Inl COBS_ERROR_INCOMPLETE"
proof (induction inp frame_end read_index write_index out rule: decode_loop.induct)
  case (1 inp frame_end read_index write_index out)
  show ?case
    using 1 by (subst decode_loop.simps) (auto simp: Let_def split: prod.splits)
qed

lemma COBS_decode_incomplete:
  assumes "COBS_decode (Some inp) (Some out) output_size consumed_length =
      (Inl COBS_ERROR_INCOMPLETE, decoded, consumed_length')"
  shows "decoded = Some out \<and> consumed_length' = consumed_length"
  using assms decode_loop_not_incomplete [of inp "frame_end_loop inp 0" 0 0 out]
  by (auto simp: COBS_decode_def Let_def split: if_splits prod.splits sum.splits)

text \<open>
  C6. One round of \<open>process_incoming_data\<close> on a non-empty ingress buffer.  When the decoder
  answers INCOMPLETE, the function returns and the layer is unchanged.  When it answers any other
  error, or a decoded length below 4, the function goes on exactly as it would from the ingress
  buffer without its first byte, which is one byte shorter.
\<close>

theorem process_incoming_resynchronisation:
  assumes "incoming_buffer_' l \<noteq> []"
    and "COBS_decode (Some (incoming_buffer_' l)) (Some (decode_buffer_' l)) LINK_MAX_FRAME_SIZE 0 =
      (decoded_length, decoded, consumed_length)"
  shows "(decoded_length = Inl COBS_ERROR_INCOMPLETE \<longrightarrow>
            LinkLayer_process_incoming_data crc up_on_receive (u, l) =
              Some (LINK_SUCCESS, u, l)) \<and>
         ((\<exists>e. decoded_length = Inl e \<and> e \<noteq> COBS_ERROR_INCOMPLETE) \<or>
          (\<exists>n. decoded_length = Inr n \<and> n < 4) \<longrightarrow>
            LinkLayer_process_incoming_data crc up_on_receive (u, l) =
              LinkLayer_process_incoming_data crc up_on_receive
                (u, l\<lparr>decode_buffer_' := buffer_after (decode_buffer_' l) decoded,
                      incoming_buffer_' := tl (incoming_buffer_' l)\<rparr>) \<and>
            length (tl (incoming_buffer_' l)) = length (incoming_buffer_' l) - 1)"
proof (rule conjI; rule impI)
  assume inc: "decoded_length = Inl COBS_ERROR_INCOMPLETE"
  with assms(2) have "decoded = Some (decode_buffer_' l)"
    using COBS_decode_incomplete by blast
  with assms inc show "LinkLayer_process_incoming_data crc up_on_receive (u, l) =
      Some (LINK_SUCCESS, u, l)"
    by (simp add: LinkLayer_process_incoming_data_def process_incoming_loop.simps [of _ _ "(u, l)"]
        buffer_after_def)
next
  assume bad: "(\<exists>e. decoded_length = Inl e \<and> e \<noteq> COBS_ERROR_INCOMPLETE) \<or>
      (\<exists>n. decoded_length = Inr n \<and> n < 4)"
  let ?l = "l\<lparr>decode_buffer_' := buffer_after (decode_buffer_' l) decoded,
              incoming_buffer_' := tl (incoming_buffer_' l)\<rparr>"
  have step: "process_incoming_loop crc up_on_receive (u, l) =
      process_incoming_loop crc up_on_receive (u, ?l)"
    using assms bad
    by (subst process_incoming_loop.simps)
      (auto simp: LINK_MIN_FRAME_SIZE_def LINK_HEADER_SIZE_def LINK_CRC_SIZE_def drop_Suc)
  have stop: "process_incoming_loop crc up_on_receive (u, ?l) = Some (u, ?l)"
    if "tl (incoming_buffer_' l) = []"
    using that by (subst process_incoming_loop.simps) simp
  have "LinkLayer_process_incoming_data crc up_on_receive (u, l) =
      LinkLayer_process_incoming_data crc up_on_receive (u, ?l)"
  proof (cases "tl (incoming_buffer_' l) = []")
    case True
    with assms(1) step stop [OF True] show ?thesis
      by (simp add: LinkLayer_process_incoming_data_def)
  next
    case False
    then have "1 < length (incoming_buffer_' l)"
      by (cases "incoming_buffer_' l") auto
    with assms(1) step show ?thesis
      by (simp add: LinkLayer_process_incoming_data_def)
  qed
  moreover have "length (tl (incoming_buffer_' l)) = length (incoming_buffer_' l) - 1"
    by simp
  ultimately show "LinkLayer_process_incoming_data crc up_on_receive (u, l) =
      LinkLayer_process_incoming_data crc up_on_receive (u, ?l) \<and>
      length (tl (incoming_buffer_' l)) = length (incoming_buffer_' l) - 1"
    by (rule conjI)
qed

text \<open>
  The ingress buffer \<open>05 00 07\<close>: the first byte is dropped after an invalid frame, the second
  after an empty one, and the last waits for more bytes.
\<close>

theorem process_incoming_resynchronisation_witness:
  "LinkLayer_process_incoming_data CRC16_calculate ignoring_up_layer ((), link_with_noise) =
     Some (LINK_SUCCESS, (), link_with_noise\<lparr>incoming_buffer_' := [0x07]\<rparr>)"
proof -
  let ?P = "LinkLayer_process_incoming_data CRC16_calculate ignoring_up_layer"
  let ?l1 = "link_with_noise\<lparr>incoming_buffer_' := [0x00, 0x07]\<rparr>"
  let ?l2 = "link_with_noise\<lparr>incoming_buffer_' := [0x07]\<rparr>"
  have b: "decode_buffer_' link_with_noise = replicate 254 0"
    "incoming_buffer_' link_with_noise = [0x05, 0x00, 0x07]"
    by (simp_all add: link_with_noise_def)
  have e: "link_with_noise\<lparr>decode_buffer_' := replicate 254 0\<rparr> = link_with_noise"
    by (simp add: link_with_noise_def)
  have d0: "COBS_decode (Some [0x05, 0x00, 0x07]) (Some (replicate 254 0)) LINK_MAX_FRAME_SIZE 0 =
      (Inl COBS_ERROR_INVALID_INPUT, Some (replicate 254 0), 0)"
    by code_simp
  have d1: "COBS_decode (Some [0x00, 0x07]) (Some (replicate 254 0)) LINK_MAX_FRAME_SIZE 0 =
      (Inr 0, Some (replicate 254 0), 1)"
    by code_simp
  have d2: "COBS_decode (Some [0x07]) (Some (replicate 254 0)) LINK_MAX_FRAME_SIZE 0 =
      (Inl COBS_ERROR_INCOMPLETE, Some (replicate 254 0), 0)"
    by code_simp
  have "?P ((), link_with_noise) = ?P ((), ?l1)"
    using process_incoming_resynchronisation [where l = link_with_noise
        and crc = CRC16_calculate and up_on_receive = ignoring_up_layer and u = "()"
        and decoded_length = "Inl COBS_ERROR_INVALID_INPUT" and decoded = "Some (replicate 254 0)"
        and consumed_length = 0]
    by (simp add: b d0 e buffer_after_def)
  also have "\<dots> = ?P ((), ?l2)"
    using process_incoming_resynchronisation [where l = ?l1
        and crc = CRC16_calculate and up_on_receive = ignoring_up_layer and u = "()"
        and decoded_length = "Inr 0" and decoded = "Some (replicate 254 0)"
        and consumed_length = 1]
    by (simp add: b d1 e buffer_after_def)
  also have "\<dots> = Some (LINK_SUCCESS, (), ?l2)"
    using process_incoming_resynchronisation [where l = ?l2
        and crc = CRC16_calculate and up_on_receive = ignoring_up_layer and u = "()"
        and decoded_length = "Inl COBS_ERROR_INCOMPLETE" and decoded = "Some (replicate 254 0)"
        and consumed_length = 0]
    by (simp add: b d2)
  finally show ?thesis .
qed

end
